theory Spec2Isabelle
  imports Complex_Main
begin

section \<open>Floating-point values\<close>

text \<open>
  \<^verbatim>\<open>generate_graphs.py\<close> computes with numpy/pandas \<^verbatim>\<open>float64\<close> values. A value
  is a finite number, one of the two infinities, or NaN. Signed zeros are not told
  apart (a zero divisor counts as \<open>+0\<close>).

  The finite results of an operation are rounded by the floating-point format. The
  format is a parameter \<open>r\<close> of every operation: \<open>exact\<close> does not round (arithmetic on
  the reals), \<open>binary64\<close> rounds to the nearest IEEE-754 double, ties to even. A
  statement about \<open>r\<close> holds for both; a statement about \<open>exact\<close> is one about the
  formulas, up to rounding.

  The integers of the \<^verbatim>\<open>Size\<close> column enter the arithmetic as the numbers they are, and
  \<^verbatim>\<open>np.log2\<close> is the rounded logarithm to base 2.
\<close>

datatype fval = Fin real | PInf | NInf | NaN

type_synonym rounding = "real \<Rightarrow> fval"

definition exact :: rounding where
  "exact x = Fin x"

text \<open>Round to the nearest integer, ties to the even one.\<close>

definition rne :: "real \<Rightarrow> int" where
  "rne x = (let f = \<lfloor>x\<rfloor>; d = x - of_int f in
      if d < 1 / 2 then f
      else if 1 / 2 < d then f + 1
      else if even f then f else f + 1)"

text \<open>
  IEEE-754 binary64: 53 significant bits, least normal exponent \<open>-1022\<close>. \<open>round53\<close> is
  the nearest number of the format when the exponent has no upper bound; \<open>binary64\<close>
  overflows to an infinity from \<open>2 ^ 1024\<close> on.
\<close>

definition round53 :: "real \<Rightarrow> real" where
  "round53 x =
     (if x = 0 then 0
      else let e = max \<lfloor>log 2 \<bar>x\<bar>\<rfloor> (- 1022);
               u = 2 powr (of_int e - 52)
           in u * of_int (rne (x / u)))"

definition binary64 :: rounding where
  "binary64 x =
     (let y = round53 x
      in if 2 powr 1024 \<le> \<bar>y\<bar> then (if 0 < y then PInf else NInf) else Fin y)"

text \<open>The infinity with the sign of \<open>s\<close>; NaN when \<open>s\<close> is zero.\<close>

definition signed_inf :: "real \<Rightarrow> fval" where
  "signed_inf s = (if 0 < s then PInf else if s < 0 then NInf else NaN)"

fun fmul :: "rounding \<Rightarrow> fval \<Rightarrow> fval \<Rightarrow> fval" where
  "fmul r NaN b = NaN"
| "fmul r a NaN = NaN"
| "fmul r (Fin x) (Fin y) = r (x * y)"
| "fmul r (Fin x) PInf = signed_inf x"
| "fmul r (Fin x) NInf = signed_inf (- x)"
| "fmul r PInf (Fin y) = signed_inf y"
| "fmul r NInf (Fin y) = signed_inf (- y)"
| "fmul r PInf PInf = PInf"
| "fmul r PInf NInf = NInf"
| "fmul r NInf PInf = NInf"
| "fmul r NInf NInf = PInf"

text \<open>
  numpy's true division: a zero divisor gives an infinity (NaN for \<open>0 / 0\<close>) and a
  warning, never an exception. Here the infinity has the sign of the dividend, as for the
  divisor \<open>+0\<close>; for the divisor \<open>-0.0\<close> the program's infinity has the other sign.
\<close>

fun fdiv :: "rounding \<Rightarrow> fval \<Rightarrow> fval \<Rightarrow> fval" where
  "fdiv r NaN b = NaN"
| "fdiv r a NaN = NaN"
| "fdiv r (Fin x) (Fin y) = (if y = 0 then signed_inf x else r (x / y))"
| "fdiv r (Fin x) PInf = Fin 0"
| "fdiv r (Fin x) NInf = Fin 0"
| "fdiv r PInf (Fin y) = (if 0 \<le> y then PInf else NInf)"
| "fdiv r NInf (Fin y) = (if 0 \<le> y then NInf else PInf)"
| "fdiv r PInf PInf = NaN"
| "fdiv r PInf NInf = NaN"
| "fdiv r NInf PInf = NaN"
| "fdiv r NInf NInf = NaN"

fun fadd :: "rounding \<Rightarrow> fval \<Rightarrow> fval \<Rightarrow> fval" where
  "fadd r NaN b = NaN"
| "fadd r a NaN = NaN"
| "fadd r (Fin x) (Fin y) = r (x + y)"
| "fadd r (Fin x) PInf = PInf"
| "fadd r (Fin x) NInf = NInf"
| "fadd r PInf (Fin y) = PInf"
| "fadd r NInf (Fin y) = NInf"
| "fadd r PInf PInf = PInf"
| "fadd r PInf NInf = NaN"
| "fadd r NInf PInf = NaN"
| "fadd r NInf NInf = NInf"

text \<open>\<^verbatim>\<open>np.log2\<close>: \<open>-inf\<close> at zero, NaN below zero.\<close>

fun flog2 :: "rounding \<Rightarrow> fval \<Rightarrow> fval" where
  "flog2 r (Fin x) = (if 0 < x then r (log 2 x) else if x = 0 then NInf else NaN)"
| "flog2 r PInf = PInf"
| "flog2 r NInf = NaN"
| "flog2 r NaN = NaN"

text \<open>The comparison \<open>a \<le> b\<close> of IEEE-754: false whenever a side is NaN.\<close>

fun fle :: "fval \<Rightarrow> fval \<Rightarrow> bool" where
  "fle NaN b = False"
| "fle a NaN = False"
| "fle NInf b = True"
| "fle a PInf = True"
| "fle (Fin x) (Fin y) = (x \<le> y)"
| "fle (Fin x) NInf = False"
| "fle PInf (Fin y) = False"
| "fle PInf NInf = False"

text \<open>
  A rounding that keeps the order of the numbers that are not negative, and keeps zero and
  the powers of two up to \<open>2 ^ 70\<close>.
\<close>

definition monotone_rounding :: "rounding \<Rightarrow> bool" where
  "monotone_rounding r \<longleftrightarrow>
     (\<forall>x y. 0 \<le> x \<and> x \<le> y \<longrightarrow> fle (r x) (r y)) \<and> r 0 = Fin 0 \<and>
     (\<forall>k\<le>70. r (2 ^ k) = Fin (2 ^ k))"

fun isnan :: "fval \<Rightarrow> bool" where
  "isnan NaN = True"
| "isnan a = False"

fun isfinite :: "fval \<Rightarrow> bool" where
  "isfinite (Fin x) = True"
| "isfinite a = False"

section \<open>Errors\<close>

text \<open>
  The exceptions the program can raise: \<^verbatim>\<open>df[c]\<close> on a column that is not there
  (\<open>KeyError\<close>), \<^verbatim>\<open>.iloc[0]\<close> and \<^verbatim>\<open>.iloc[-1]\<close> on an empty column
  (\<open>IndexError\<close>), \<^verbatim>\<open>pd.read_csv\<close> on a path that is not there
  (\<open>FileNotFoundError\<close>) or that does not hold a table (\<open>ParserError\<close>). The program
  catches none of them.
\<close>

datatype error = KeyError string | IndexError | FileNotFoundError string | ParserError string

definition ebind :: "error + 'a \<Rightarrow> ('a \<Rightarrow> error + 'b) \<Rightarrow> error + 'b" where
  "ebind m f = (case m of Inl e \<Rightarrow> Inl e | Inr x \<Rightarrow> f x)"

section \<open>The benchmark table\<close>

text \<open>
  A pandas \<^verbatim>\<open>DataFrame\<close>: the names of its columns and its rows, each row giving a
  value to a column name. Only the columns named in \<open>columns\<close> exist.
\<close>

type_synonym series = "fval list"

record dataframe =
  columns :: "string list"
  rows :: "(string \<Rightarrow> fval) list"

text \<open>\<^verbatim>\<open>df[c]\<close>\<close>

definition col :: "dataframe \<Rightarrow> string \<Rightarrow> error + series" where
  "col df c = (if c \<in> set (columns df) then Inr (map (\<lambda>row. row c) (rows df))
               else Inl (KeyError c))"

text \<open>\<^verbatim>\<open>len(df)\<close>\<close>

definition len :: "dataframe \<Rightarrow> nat" where
  "len df = length (rows df)"

text \<open>\<^verbatim>\<open>s.iloc[0]\<close> and \<^verbatim>\<open>s.iloc[-1]\<close>\<close>

definition iloc0 :: "series \<Rightarrow> error + fval" where
  "iloc0 s = (case s of [] \<Rightarrow> Inl IndexError | x # _ \<Rightarrow> Inr x)"

definition iloc_last :: "series \<Rightarrow> error + fval" where
  "iloc_last s = (if s = [] then Inl IndexError else Inr (last s))"

text \<open>\<^verbatim>\<open>xs[::k]\<close> for \<open>k \<ge> 1\<close>: the elements at the indices \<open>0\<close>, \<open>k\<close>, \<open>2k\<close>, ...\<close>

fun slice_step :: "nat \<Rightarrow> 'a list \<Rightarrow> 'a list" where
  "slice_step k [] = []"
| "slice_step k (x # xs) = x # slice_step k (drop (k - 1) xs)"

text \<open>
  A row of the benchmark table (the BenchmarkRow of the specification), and the
  \<^verbatim>\<open>DataFrame\<close> that holds a list of such rows under the six column names the program
  reads.
\<close>

record benchmark_row =
  size_n :: nat
  sa_ms :: real
  lcp_ms :: real
  total_ms :: real
  search_ns :: real
  nlogn :: real

definition cells :: "benchmark_row \<Rightarrow> string \<Rightarrow> fval" where
  "cells b c =
     (if c = ''Size'' then Fin (real (size_n b))
      else if c = ''Total(ms)'' then Fin (total_ms b)
      else if c = ''SA(ms)'' then Fin (sa_ms b)
      else if c = ''LCP(ms)'' then Fin (lcp_ms b)
      else if c = ''Search(ns)'' then Fin (search_ns b)
      else if c = ''n*log(n)'' then Fin (nlogn b)
      else NaN)"

definition required_columns :: "string list" where
  "required_columns =
     [''Size'', ''Total(ms)'', ''SA(ms)'', ''LCP(ms)'', ''Search(ns)'', ''n*log(n)'']"

definition frame_of :: "benchmark_row list \<Rightarrow> dataframe" where
  "frame_of t = \<lparr>columns = required_columns, rows = map cells t\<rparr>"

section \<open>The derived series\<close>

text \<open>
  Each definition is a local variable of one of the \<^verbatim>\<open>plot_*\<close> functions, under its
  name in the source. The columns are read in the order the source reads them.
\<close>

subsection \<open>\<^verbatim>\<open>plot_overall_complexity\<close>\<close>

text \<open>
  \<^verbatim>\<open>theoretical = (df['n*log(n)'] / df['n*log(n)'].iloc[0]) * df['Total(ms)'].iloc[0]\<close>
\<close>

definition theoretical :: "rounding \<Rightarrow> dataframe \<Rightarrow> error + series" where
  "theoretical r df =
     ebind (col df ''n*log(n)'') (\<lambda>nl.
     ebind (iloc0 nl) (\<lambda>nl0.
     ebind (col df ''Total(ms)'') (\<lambda>total.
     ebind (iloc0 total) (\<lambda>t0.
     Inr (map (\<lambda>v. fmul r (fdiv r v nl0) t0) nl)))))"

subsection \<open>\<^verbatim>\<open>plot_sa_vs_lcp\<close>\<close>

text \<open>\<^verbatim>\<open>ratio = df['SA(ms)'] / df['LCP(ms)']\<close>\<close>

definition ratio :: "rounding \<Rightarrow> dataframe \<Rightarrow> error + series" where
  "ratio r df =
     ebind (col df ''SA(ms)'') (\<lambda>sa.
     ebind (col df ''LCP(ms)'') (\<lambda>lcp.
     Inr (map2 (fdiv r) sa lcp)))"

text \<open>
  \<^verbatim>\<open>ratio.mean()\<close> is pandas' \<^verbatim>\<open>Series.mean\<close> with its default \<^verbatim>\<open>skipna=True\<close>:
  the NaN entries are left out, the others are summed and divided by their number; the
  mean of no entries is NaN. \<open>mean\<close> adds the entries from left to right, starting from
  zero.
\<close>

definition mean :: "rounding \<Rightarrow> series \<Rightarrow> fval" where
  "mean r s =
     (let vs = filter (\<lambda>v. \<not> isnan v) s in
      if vs = [] then NaN
      else fdiv r (foldl (fadd r) (Fin 0) vs) (Fin (real (length vs))))"

text \<open>
  The program does not fix the order in which the library adds the entries (numpy adds in
  blocks and pairs, and pandas puts a zero in the place of each NaN entry), and under a
  rounding the order changes the sum. \<open>adds_up r xs v\<close> holds when \<open>v\<close> is a sum of the
  entries of \<open>xs\<close>, and of any number of zeros, added in some order and grouping;
  \<open>is_mean r s m\<close> holds when \<open>m\<close> is the mean of \<open>s\<close> for one of these sums. What holds for
  every such \<open>m\<close> holds for \<^verbatim>\<open>ratio.mean()\<close> whatever the order.
\<close>

inductive adds_up :: "rounding \<Rightarrow> series \<Rightarrow> fval \<Rightarrow> bool" for r :: rounding where
  zero: "adds_up r [] (Fin 0)"
| one: "adds_up r [x] x"
| add: "adds_up r xs a \<Longrightarrow> adds_up r ys b \<Longrightarrow> adds_up r (xs @ ys) (fadd r a b)"
| swap: "adds_up r (xs @ x # y # ys) a \<Longrightarrow> adds_up r (xs @ y # x # ys) a"

code_pred adds_up .

definition is_mean :: "rounding \<Rightarrow> series \<Rightarrow> fval \<Rightarrow> bool" where
  "is_mean r s m \<longleftrightarrow>
     (let vs = filter (\<lambda>v. \<not> isnan v) s in
      if vs = [] then m = NaN
      else (\<exists>v. adds_up r vs v \<and> m = fdiv r v (Fin (real (length vs)))))"

subsection \<open>\<^verbatim>\<open>plot_logarithmic_scale\<close>\<close>

text \<open>
  \<^verbatim>\<open>x = df['Size'].values\<close>

  \<^verbatim>\<open>y_n = x * df['Total(ms)'].iloc[0] / df['Size'].iloc[0]\<close>

  \<^verbatim>\<open>y_nlogn = x * np.log2(x) * df['Total(ms)'].iloc[0] / (df['Size'].iloc[0] * np.log2(df['Size'].iloc[0]))\<close>
\<close>

definition y_n :: "rounding \<Rightarrow> dataframe \<Rightarrow> error + series" where
  "y_n r df =
     ebind (col df ''Size'') (\<lambda>x.
     ebind (col df ''Total(ms)'') (\<lambda>total.
     ebind (iloc0 total) (\<lambda>t0.
     ebind (col df ''Size'') (\<lambda>sz.
     ebind (iloc0 sz) (\<lambda>s0.
     Inr (map (\<lambda>v. fdiv r (fmul r v t0) s0) x))))))"

definition y_nlogn :: "rounding \<Rightarrow> dataframe \<Rightarrow> error + series" where
  "y_nlogn r df =
     ebind (col df ''Size'') (\<lambda>x.
     ebind (col df ''Total(ms)'') (\<lambda>total.
     ebind (iloc0 total) (\<lambda>t0.
     ebind (col df ''Size'') (\<lambda>sz.
     ebind (iloc0 sz) (\<lambda>s0.
     Inr (map (\<lambda>v. fdiv r (fmul r (fmul r v (flog2 r v)) t0) (fmul r s0 (flog2 r s0))) x))))))"

subsection \<open>\<^verbatim>\<open>plot_search_performance\<close>\<close>

text \<open>
  \<^verbatim>\<open>search_us = df['Search(ns)'] / 1000\<close>

  \<^verbatim>\<open>theoretical_logn = np.log2(df['Size']) * (search_us.iloc[-1] / np.log2(df['Size'].iloc[-1]))\<close>
\<close>

definition search_us :: "rounding \<Rightarrow> dataframe \<Rightarrow> error + series" where
  "search_us r df =
     ebind (col df ''Search(ns)'') (\<lambda>s. Inr (map (\<lambda>v. fdiv r v (Fin 1000)) s))"

definition theoretical_logn :: "rounding \<Rightarrow> dataframe \<Rightarrow> error + series" where
  "theoretical_logn r df =
     ebind (search_us r df) (\<lambda>us.
     ebind (col df ''Size'') (\<lambda>sz.
     ebind (iloc_last us) (\<lambda>us_last.
     ebind (col df ''Size'') (\<lambda>sz'.
     ebind (iloc_last sz') (\<lambda>s_last.
     Inr (map (\<lambda>v. fmul r (flog2 r v) (fdiv r us_last (flog2 r s_last))) sz))))))"

subsection \<open>\<^verbatim>\<open>plot_growth_rates\<close>\<close>

text \<open>
  \<^verbatim>\<open>size_ratios = df['Size'].iloc[1:].values / df['Size'].iloc[:-1].values\<close>

  \<^verbatim>\<open>time_ratios = df['Total(ms)'].iloc[1:].values / df['Total(ms)'].iloc[:-1].values\<close>
\<close>

definition size_ratios :: "rounding \<Rightarrow> dataframe \<Rightarrow> error + series" where
  "size_ratios r df =
     ebind (col df ''Size'') (\<lambda>sz.
     ebind (col df ''Size'') (\<lambda>sz'.
     Inr (map2 (fdiv r) (drop 1 sz) (butlast sz'))))"

definition time_ratios :: "rounding \<Rightarrow> dataframe \<Rightarrow> error + series" where
  "time_ratios r df =
     ebind (col df ''Total(ms)'') (\<lambda>total.
     ebind (col df ''Total(ms)'') (\<lambda>total'.
     Inr (map2 (fdiv r) (drop 1 total) (butlast total'))))"

text \<open>
  The loop
  \<^verbatim>\<open>for i in range(1, len(df)):
      n1, n2 = df['Size'].iloc[i-1], df['Size'].iloc[i]
      ratio = (n2 * np.log2(n2)) / (n1 * np.log2(n1))
      theoretical_ratios.append(ratio)\<close>
  Both indices are below \<^verbatim>\<open>len(df)\<close>, so \<^verbatim>\<open>.iloc\<close> does not raise.
\<close>

definition theoretical_ratios :: "rounding \<Rightarrow> dataframe \<Rightarrow> error + series" where
  "theoretical_ratios r df =
     (if len df \<le> 1 then Inr []
      else ebind (col df ''Size'') (\<lambda>sz.
        Inr (map (\<lambda>i. let n1 = sz ! (i - 1); n2 = sz ! i in
                   fdiv r (fmul r n2 (flog2 r n2)) (fmul r n1 (flog2 r n1)))
               [1..<len df])))"

text \<open>\<^verbatim>\<open>x_pos = df['Size'].iloc[1:].values\<close>\<close>

definition x_pos :: "dataframe \<Rightarrow> error + series" where
  "x_pos df = ebind (col df ''Size'') (\<lambda>sz. Inr (drop 1 sz))"

subsection \<open>\<^verbatim>\<open>plot_component_breakdown\<close>\<close>

text \<open>
  \<^verbatim>\<open>step = max(1, len(df) // 10)\<close>

  \<^verbatim>\<open>df_subset = df.iloc[::step]\<close>
\<close>

definition step :: "dataframe \<Rightarrow> nat" where
  "step df = max 1 (len df div 10)"

definition df_subset :: "dataframe \<Rightarrow> dataframe" where
  "df_subset df = df\<lparr>rows := slice_step (step df) (rows df)\<rparr>"

section \<open>Charts, files and the driver\<close>

text \<open>
  What a chart shows: curves (label, x values, y values), horizontal reference lines and
  stacked bars (label, x positions, heights, bottoms). Styling is left out.
\<close>

datatype artist =
    Curve string series series
  | HLine fval
  | Bars string series series series

type_synonym chart = "artist list"

text \<open>
  The file system maps a path to what the file holds: a table (what \<^verbatim>\<open>pd.read_csv\<close>
  parses the file to) or a chart. The standard output is the list of the printed lines.
\<close>

datatype artifact = Csv dataframe | Png chart

record world =
  files :: "string \<rightharpoonup> artifact"
  stdout :: "string list"

definition print_line :: "string \<Rightarrow> world \<Rightarrow> world" where
  "print_line s w = w\<lparr>stdout := stdout w @ [s]\<rparr>"

text \<open>\<^verbatim>\<open>plt.savefig(path)\<close> followed by \<^verbatim>\<open>print(f"Saved: {path}")\<close>\<close>

definition savefig :: "string \<Rightarrow> chart \<Rightarrow> world \<Rightarrow> world" where
  "savefig path c w = print_line (''Saved: '' @ path) (w\<lparr>files := (files w)(path \<mapsto> Png c)\<rparr>)"

text \<open>\<^verbatim>\<open>os.path.exists(path)\<close>\<close>

definition path_exists :: "world \<Rightarrow> string \<Rightarrow> bool" where
  "path_exists w path = (files w path \<noteq> None)"

text \<open>\<^verbatim>\<open>load_data(csv_path)\<close>, which is \<^verbatim>\<open>pd.read_csv(csv_path)\<close> and nothing else.\<close>

definition load_data :: "world \<Rightarrow> string \<Rightarrow> error + dataframe" where
  "load_data w csv_path =
     (case files w csv_path of
        None \<Rightarrow> Inl (FileNotFoundError csv_path)
      | Some (Csv df) \<Rightarrow> Inr df
      | Some (Png c) \<Rightarrow> Inl (ParserError csv_path))"

definition plot_overall_complexity ::
    "rounding \<Rightarrow> dataframe \<Rightarrow> string \<Rightarrow> world \<Rightarrow> error + world" where
  "plot_overall_complexity r df output_dir w =
     ebind (col df ''Size'') (\<lambda>sz.
     ebind (col df ''Total(ms)'') (\<lambda>total.
     ebind (col df ''SA(ms)'') (\<lambda>sa.
     ebind (col df ''LCP(ms)'') (\<lambda>lcp.
     ebind (theoretical r df) (\<lambda>th.
     Inr (savefig (output_dir @ ''/overall_complexity.png'')
            [Curve ''Actual Total Time'' sz total,
             Curve ''SA Construction'' sz sa,
             Curve ''LCP Construction'' sz lcp,
             Curve ''O(n log n) theoretical'' sz th] w))))))"

definition plot_sa_vs_lcp ::
    "rounding \<Rightarrow> dataframe \<Rightarrow> string \<Rightarrow> world \<Rightarrow> error + world" where
  "plot_sa_vs_lcp r df output_dir w =
     ebind (col df ''Size'') (\<lambda>sz.
     ebind (col df ''SA(ms)'') (\<lambda>sa.
     ebind (col df ''LCP(ms)'') (\<lambda>lcp.
     ebind (ratio r df) (\<lambda>rt.
     Inr (savefig (output_dir @ ''/sa_vs_lcp.png'')
            [Curve ''SA Construction O(n log n)'' sz sa,
             Curve ''LCP Construction O(n)'' sz lcp,
             Curve [] sz rt,
             HLine (mean r rt)] w)))))"

definition plot_logarithmic_scale ::
    "rounding \<Rightarrow> dataframe \<Rightarrow> string \<Rightarrow> world \<Rightarrow> error + world" where
  "plot_logarithmic_scale r df output_dir w =
     ebind (col df ''Size'') (\<lambda>sz.
     ebind (col df ''Total(ms)'') (\<lambda>total.
     ebind (col df ''SA(ms)'') (\<lambda>sa.
     ebind (col df ''LCP(ms)'') (\<lambda>lcp.
     ebind (y_n r df) (\<lambda>yn.
     ebind (y_nlogn r df) (\<lambda>ynl.
     Inr (savefig (output_dir @ ''/logarithmic_complexity.png'')
            [Curve ''Actual Total Time'' sz total,
             Curve ''SA Construction'' sz sa,
             Curve ''LCP Construction'' sz lcp,
             Curve ''O(n)'' sz yn,
             Curve ''O(n log n)'' sz ynl] w)))))))"

definition plot_search_performance ::
    "rounding \<Rightarrow> dataframe \<Rightarrow> string \<Rightarrow> world \<Rightarrow> error + world" where
  "plot_search_performance r df output_dir w =
     ebind (search_us r df) (\<lambda>us.
     ebind (col df ''Size'') (\<lambda>sz.
     ebind (theoretical_logn r df) (\<lambda>th.
     Inr (savefig (output_dir @ ''/search_performance.png'')
            [Curve ''Actual Search Time'' sz us,
             Curve ''O(log n) theoretical'' sz th] w))))"

definition plot_growth_rates ::
    "rounding \<Rightarrow> dataframe \<Rightarrow> string \<Rightarrow> world \<Rightarrow> error + world" where
  "plot_growth_rates r df output_dir w =
     ebind (size_ratios r df) (\<lambda>sr.
     ebind (time_ratios r df) (\<lambda>tr.
     ebind (theoretical_ratios r df) (\<lambda>thr.
     ebind (x_pos df) (\<lambda>xp.
     Inr (savefig (output_dir @ ''/growth_rates.png'')
            [Curve ''Actual Growth Rate'' xp tr,
             Curve ''Expected O(n log n) Growth'' xp thr,
             HLine (Fin 1)] w)))))"

text \<open>\<^verbatim>\<open>x = np.arange(len(df_subset))\<close> gives the bar positions \<open>0, 1, ...\<close>\<close>

definition plot_component_breakdown ::
    "rounding \<Rightarrow> dataframe \<Rightarrow> string \<Rightarrow> world \<Rightarrow> error + world" where
  "plot_component_breakdown r df output_dir w =
     (let sub = df_subset df;
          x = map (\<lambda>i. Fin (real i)) [0..<len sub] in
      ebind (col sub ''SA(ms)'') (\<lambda>sa.
      ebind (col sub ''LCP(ms)'') (\<lambda>lcp.
      ebind (col sub ''Size'') (\<lambda>sz.
      Inr (savefig (output_dir @ ''/component_breakdown.png'')
             [Bars ''SA Construction'' x sa (map (\<lambda>_. Fin 0) x),
              Bars ''LCP Construction'' x lcp sa] w)))))"

definition csv_path :: string where
  "csv_path = ''/home/claude/suffix-array-project/docs/benchmark_results.csv''"

definition output_dir :: string where
  "output_dir = ''/home/claude/suffix-array-project/docs''"

definition missing_message :: "string list" where
  "missing_message =
     [''Error: Benchmark data not found at '' @ csv_path,
      ''Please run PerformanceBenchmark.java first to generate data.'']"

text \<open>
  The six chart builders in the order \<^verbatim>\<open>main\<close> calls them. An exception ends the run
  there: the charts written before it stay, the later ones are not made.
\<close>

fun run_plots ::
    "(dataframe \<Rightarrow> string \<Rightarrow> world \<Rightarrow> error + world) list \<Rightarrow> dataframe \<Rightarrow> string \<Rightarrow> world
       \<Rightarrow> world \<times> error option" where
  "run_plots [] df dir w = (w, None)"
| "run_plots (p # ps) df dir w =
     (case p df dir w of
        Inl e \<Rightarrow> (w, Some e)
      | Inr w' \<Rightarrow> run_plots ps df dir w')"

definition plots :: "rounding \<Rightarrow> (dataframe \<Rightarrow> string \<Rightarrow> world \<Rightarrow> error + world) list" where
  "plots r =
     [plot_overall_complexity r, plot_sa_vs_lcp r, plot_logarithmic_scale r,
      plot_search_performance r, plot_growth_rates r, plot_component_breakdown r]"

text \<open>
  \<^verbatim>\<open>main()\<close>: the world after the run, and the exception that ended it, if any.
\<close>

definition main :: "rounding \<Rightarrow> world \<Rightarrow> world \<times> error option" where
  "main r w =
     (if \<not> path_exists w csv_path then (foldl (\<lambda>w s. print_line s w) w missing_message, None)
      else
        let w1 = print_line ''Loading benchmark data...'' w in
        case load_data w1 csv_path of
          Inl e \<Rightarrow> (w1, Some e)
        | Inr df \<Rightarrow>
            let w2 = print_line (CHR 0x0A # ''Generating plots...'') w1 in
            (case run_plots (plots r) df output_dir w2 of
               (w3, Some e) \<Rightarrow> (w3, Some e)
             | (w3, None) \<Rightarrow>
                 (print_line (''Graphs saved to: '' @ output_dir @ ''/'')
                    (print_line ([CHR 0x0A, CHR 0xE2, CHR 0x9C, CHR 0x85]
                                   @ '' All graphs generated successfully!'') w3),
                  None)))"

section \<open>Example tables\<close>

text \<open>
  The two-row table of the specification's scenario, with the reference column
  \<open>size \<sqdot> log\<^sub>2 size\<close>.
\<close>

definition scenario :: "benchmark_row list" where
  "scenario =
     [\<lparr>size_n = 1000, sa_ms = 1, lcp_ms = 1 / 2, total_ms = 3 / 2, search_ns = 2000,
       nlogn = 1000 * log 2 1000\<rparr>,
      \<lparr>size_n = 2000, sa_ms = 22 / 10, lcp_ms = 1, total_ms = 32 / 10, search_ns = 2100,
       nlogn = 2000 * log 2 2000\<rparr>]"

text \<open>A table of one row whose size is 1, so that \<open>log\<^sub>2 size = 0\<close>.\<close>

definition unit_size_table :: "benchmark_row list" where
  "unit_size_table =
     [\<lparr>size_n = 1, sa_ms = 1, lcp_ms = 1 / 2, total_ms = 3 / 2, search_ns = 2000, nlogn = 1\<rparr>]"

text \<open>
  A table of one row of size 3 whose total time is the double nearest to \<open>0.1\<close>,
  \<open>3602879701896397 / 2\<^sup>5\<^sup>5\<close>.
\<close>

definition tenth_table :: "benchmark_row list" where
  "tenth_table =
     [\<lparr>size_n = 3, sa_ms = 1 / 16, lcp_ms = 1 / 32,
       total_ms = 3602879701896397 / 36028797018963968, search_ns = 2000,
       nlogn = 3 * log 2 3\<rparr>]"

text \<open>Twenty rows of sizes 1000, 2000, ..., 20000.\<close>

definition twenty_rows :: "benchmark_row list" where
  "twenty_rows =
     map (\<lambda>i. \<lparr>size_n = 1000 * (i + 1), sa_ms = 1, lcp_ms = 1, total_ms = 2, search_ns = 2000,
               nlogn = real (1000 * (i + 1)) * log 2 (real (1000 * (i + 1)))\<rparr>) [0..<20]"

text \<open>
  A table of one row of size 8, so that \<open>log\<^sub>2 size = 3\<close>, with a search time of
  1800 ns.
\<close>

definition eight_table :: "benchmark_row list" where
  "eight_table =
     [\<lparr>size_n = 8, sa_ms = 1 / 16, lcp_ms = 1 / 32, total_ms = 3 / 32, search_ns = 1800,
       nlogn = 24\<rparr>]"

text \<open>A table whose first row has both construction times zero.\<close>

definition nan_ratio_table :: "benchmark_row list" where
  "nan_ratio_table =
     [\<lparr>size_n = 1000, sa_ms = 0, lcp_ms = 0, total_ms = 0, search_ns = 2000,
       nlogn = 1000 * log 2 1000\<rparr>,
      \<lparr>size_n = 2000, sa_ms = 1, lcp_ms = 1, total_ms = 2, search_ns = 2100,
       nlogn = 2000 * log 2 2000\<rparr>]"

text \<open>A table whose first row has a zero LCP time and a positive SA time.\<close>

definition zero_lcp_table :: "benchmark_row list" where
  "zero_lcp_table =
     [\<lparr>size_n = 1000, sa_ms = 1, lcp_ms = 0, total_ms = 1, search_ns = 2000,
       nlogn = 1000 * log 2 1000\<rparr>,
      \<lparr>size_n = 2000, sa_ms = 2, lcp_ms = 1, total_ms = 3, search_ns = 2100,
       nlogn = 2000 * log 2 2000\<rparr>]"

text \<open>The finite entries of a series, in order.\<close>

fun finite_values :: "series \<Rightarrow> real list" where
  "finite_values [] = []"
| "finite_values (Fin x # s) = x # finite_values s"
| "finite_values (v # s) = finite_values s"

text \<open>
  The six required columns in the order in which \<^verbatim>\<open>main\<close> first reads them, and the
  first of them that a table lacks.
\<close>

definition first_missing :: "dataframe \<Rightarrow> string option" where
  "first_missing df =
     find (\<lambda>c. c \<notin> set (columns df))
       [''Size'', ''Total(ms)'', ''SA(ms)'', ''LCP(ms)'', ''n*log(n)'', ''Search(ns)'']"

text \<open>
  A world whose only file is the benchmark table, and a table that has the scenario's
  rows but no \<^verbatim>\<open>Size\<close> column.
\<close>

definition world_of :: "dataframe \<Rightarrow> world" where
  "world_of df = \<lparr>files = [csv_path \<mapsto> Csv df], stdout = []\<rparr>"

definition no_size_frame :: dataframe where
  "no_size_frame =
     \<lparr>columns = [''Total(ms)'', ''SA(ms)'', ''LCP(ms)'', ''Search(ns)'', ''n*log(n)''],
      rows = map cells scenario\<rparr>"

section \<open>Basic facts\<close>

subsection \<open>Errors and column access\<close>

lemma ebind_simps [simp]: "ebind (Inr x) f = f x" "ebind (Inl e) f = Inl e"
  by (simp_all add: ebind_def)

lemma col_present: "c \<in> set (columns df) \<Longrightarrow> col df c = Inr (map (\<lambda>row. row c) (rows df))"
  by (simp add: col_def)

lemma required_present:
  assumes "set required_columns \<subseteq> set (columns df)"
  shows "''Size'' \<in> set (columns df)" "''Total(ms)'' \<in> set (columns df)"
    "''SA(ms)'' \<in> set (columns df)" "''LCP(ms)'' \<in> set (columns df)"
    "''Search(ns)'' \<in> set (columns df)" "''n*log(n)'' \<in> set (columns df)"
  using assms by (simp_all add: required_columns_def)

lemma iloc0_Cons: "iloc0 (x # xs) = Inr x"
  by (simp add: iloc0_def)

lemma iloc_last_Cons: "iloc_last (x # xs) = Inr (last (x # xs))"
  by (simp add: iloc_last_def)

lemma frame_of_simps [simp]:
  "columns (frame_of t) = required_columns" "rows (frame_of t) = map cells t"
  by (simp_all add: frame_of_def)

lemma col_frame_of:
  "col (frame_of t) ''Size'' = Inr (map (\<lambda>b. Fin (real (size_n b))) t)"
  "col (frame_of t) ''Total(ms)'' = Inr (map (\<lambda>b. Fin (total_ms b)) t)"
  "col (frame_of t) ''SA(ms)'' = Inr (map (\<lambda>b. Fin (sa_ms b)) t)"
  "col (frame_of t) ''LCP(ms)'' = Inr (map (\<lambda>b. Fin (lcp_ms b)) t)"
  "col (frame_of t) ''Search(ns)'' = Inr (map (\<lambda>b. Fin (search_ns b)) t)"
  "col (frame_of t) ''n*log(n)'' = Inr (map (\<lambda>b. Fin (nlogn b)) t)"
  by (simp_all add: col_def frame_of_def required_columns_def cells_def)

lemma len_frame_of: "len (frame_of t) = length t"
  by (simp add: len_def frame_of_def)

lemma iloc0_map: "t \<noteq> [] \<Longrightarrow> iloc0 (map f t) = Inr (f (hd t))"
  by (cases t) (simp_all add: iloc0_def)

lemma iloc_last_map: "t \<noteq> [] \<Longrightarrow> iloc_last (map f t) = Inr (f (last t))"
  by (simp add: iloc_last_def last_map)

subsection \<open>Slices\<close>

lemma length_slice_step: "0 < k \<Longrightarrow> length (slice_step k xs) = (length xs + k - 1) div k"
proof (induction k xs rule: slice_step.induct)
  case (1 k)
  then show ?case by simp
next
  case (2 k x xs)
  show ?case
  proof (cases "length xs < k")
    case True
    with 2 show ?thesis by simp
  next
    case False
    with 2 have "length (slice_step k (drop (k - 1) xs)) = (length xs - (k - 1) + k - 1) div k"
      by simp
    also have "length xs - (k - 1) + k - 1 = length xs" using False 2 by simp
    finally have "length (slice_step k (x # xs)) = Suc (length xs div k)" by simp
    also have "\<dots> = (length xs + k) div k" using 2 by simp
    finally show ?thesis using 2 by simp
  qed
qed

lemma hd_slice_step: "xs \<noteq> [] \<Longrightarrow> slice_step k xs \<noteq> [] \<and> hd (slice_step k xs) = hd xs"
  by (cases xs) simp_all

lemma slice_step_1: "slice_step (Suc 0) xs = xs"
  by (induction xs) simp_all

lemma ceiling_div_nat:
  assumes k: "0 < k"
  shows "\<lceil>real n / real k\<rceil> = int ((n + k - 1) div k)"
proof -
  define q where "q = (n + k - 1) div k"
  define m where "m = (n + k - 1) mod k"
  have eq: "n + k - 1 = q * k + m" by (simp add: q_def m_def)
  have mk: "m < k" using k by (simp add: m_def)
  have up: "n \<le> q * k" using eq mk by linarith
  have lo: "q * k < n + k" using eq k by linarith
  have "real n \<le> real q * real k" using up by (metis of_nat_mult of_nat_le_iff)
  then have 1: "real n / real k \<le> real q" using k by (simp add: divide_le_eq)
  have "real q * real k < real n + real k" using lo by (metis of_nat_mult of_nat_add of_nat_less_iff)
  then have 2: "real q - 1 < real n / real k" using k by (simp add: less_divide_eq algebra_simps)
  have "\<lceil>real n / real k\<rceil> = int q"
    by (rule ceiling_unique) (use 1 2 in simp_all)
  then show ?thesis by (simp add: q_def)
qed

lemma subset_bounds:
  assumes "10 \<le> (N::nat)" and "k = N div 10"
  shows "10 \<le> (N + k - 1) div k \<and> (N + k - 1) div k \<le> 19"
proof -
  have k1: "1 \<le> k" using assms by simp
  have lo: "10 * k \<le> N" using assms by simp
  have hi: "N < 10 * k + 10" using assms by (simp add: div_less_iff_less_mult mult.commute) 
  have "10 * k \<le> N + k - 1" using lo k1 by linarith
  then have a: "10 \<le> (N + k - 1) div k" using k1
    by (simp add: less_eq_div_iff_mult_less_eq mult.commute)
  have "N + k - 1 < 20 * k" using hi k1 by linarith
  then have "(N + k - 1) div k < 20" using k1
    by (simp add: div_less_iff_less_mult mult.commute)
  with a show ?thesis by simp
qed

lemma len_df_subset:
  "len (df_subset df) = (len df + max 1 (len df div 10) - 1) div max 1 (len df div 10)"
  by (simp add: len_def df_subset_def step_def length_slice_step)

lemma len_df_subset_eq_iff: "len (df_subset df) = len df \<longleftrightarrow> len df < 20"
proof (cases "len df < 20")
  case True
  then have "len df div 10 < 2" by (simp add: div_less_iff_less_mult)
  then have "len df div 10 \<le> 1" by simp
  then have "max 1 (len df div 10) = 1" by (simp add: max_def)
  then show ?thesis using True by (simp add: len_df_subset)
next
  case False
  then have "10 \<le> len df" by simp
  moreover have "1 \<le> len df div 10" using False by simp
  then have "max 1 (len df div 10) = len df div 10" by simp
  ultimately have "len (df_subset df) \<le> 19"
    using subset_bounds [of "len df" "len df div 10"] by (simp add: len_df_subset)
  then show ?thesis using False by simp
qed

subsection \<open>Arithmetic without rounding\<close>

lemma exact_Fin [simp]: "exact x = Fin x"
  by (simp add: exact_def)

lemma exact_simps:
  "fmul exact (Fin x) (Fin y) = Fin (x * y)"
  "fdiv exact (Fin x) (Fin y) = (if y = 0 then signed_inf x else Fin (x / y))"
  "fadd exact (Fin x) (Fin y) = Fin (x + y)"
  "flog2 exact (Fin x) = (if 0 < x then Fin (log 2 x) else if x = 0 then NInf else NaN)"
  by (simp_all add: exact_def)

lemma log2_1000_pos: "0 < log 2 1000"
  by simp

lemma log2_1000_nz [simp]: "log 2 1000 \<noteq> 0"
proof
  assume "log 2 1000 = 0"
  with log2_1000_pos show False by linarith
qed

subsection \<open>Rounding to binary64\<close>

text \<open>
  \<open>binary64\<close> at a number whose binary exponent \<open>e\<close> is known, and the roundings that the
  examples below need. In Python, \<^verbatim>\<open>0.1 * 3\<close> is \<^verbatim>\<open>0.30000000000000004\<close> and
  \<^verbatim>\<open>0.1 * 3 / 3\<close> is \<^verbatim>\<open>0.10000000000000002\<close>.
\<close>

lemma round53_eval:
  assumes "x \<noteq> 0" "2 powr (of_int e) \<le> \<bar>x\<bar>" "\<bar>x\<bar> < 2 powr (of_int e + 1)" "- 1022 \<le> e"
  shows "round53 x = 2 powr (of_int e - 52) * of_int (rne (x / 2 powr (of_int e - 52)))"
proof -
  have "\<lfloor>log 2 \<bar>x\<bar>\<rfloor> = e"
    using assms by (subst floor_log_eq_powr_iff) (simp_all add: add.commute)
  then show ?thesis using assms by (simp add: round53_def max_def Let_def)
qed

lemma binary64_eval:
  assumes "x \<noteq> 0" "2 powr (of_int e) \<le> \<bar>x\<bar>" "\<bar>x\<bar> < 2 powr (of_int e + 1)" "- 1022 \<le> e"
  shows "binary64 x =
     (let u = 2 powr (of_int e - 52); y = u * of_int (rne (x / u))
      in if 2 powr 1024 \<le> \<bar>y\<bar> then (if 0 < y then PInf else NInf) else Fin y)"
  by (simp only: binary64_def round53_eval [OF assms] Let_def)

lemma rne_of_int [simp]: "rne (of_int n) = n"
  by (simp add: rne_def Let_def)

lemma binary64_1: "binary64 1 = Fin 1"
  by (subst binary64_eval [where e = 0]) (simp_all add: Let_def powr_minus rne_def)

lemma binary64_2: "binary64 2 = Fin 2"
  by (subst binary64_eval [where e = 1]) (simp_all add: Let_def powr_minus rne_def)

lemma binary64_0: "binary64 0 = Fin 0"
  by (simp add: binary64_def round53_def)

lemma binary64_three_halves: "binary64 (3 / 2) = Fin (3 / 2)"
  by (subst binary64_eval [where e = 0]) (simp_all add: Let_def powr_minus rne_def)


lemma binary64_tenth_times_3:
  "binary64 (3 * (3602879701896397 / 36028797018963968)) = Fin (1351079888211149 / 4503599627370496)"
  by (subst binary64_eval [where e = "- 2"]) (simp_all add: Let_def powr_minus rne_def)

lemma binary64_tenth_times_3_div_3:
  "binary64 ((1351079888211149 / 4503599627370496) / 3) = Fin (7205759403792795 / 72057594037927936)"
  by (subst binary64_eval [where e = "- 4"]) (simp_all add: Let_def powr_minus rne_def)

lemma log2_8: "log 2 8 = 3"
proof -
  have "log 2 (2 ^ 3) = 3" by (subst log_pow_cancel) simp_all
  then show ?thesis by simp
qed

lemma binary64_3: "binary64 3 = Fin 3"
  by (subst binary64_eval [where e = 1]) (simp_all add: Let_def powr_minus rne_def)

lemma binary64_9_5: "binary64 (9 / 5) = Fin (8106479329266893 / 4503599627370496)"
  by (subst binary64_eval [where e = 0]) (simp_all add: Let_def powr_minus rne_def)

lemma binary64_us_div_3:
  "binary64 (8106479329266893 / 13510798882111488) = Fin (5404319552844595 / 9007199254740992)"
  by (subst binary64_eval [where e = "- 1"]) (simp_all add: Let_def powr_minus rne_def)

lemma binary64_3_times:
  "binary64 (16212958658533785 / 9007199254740992) = Fin (2026619832316723 / 1125899906842624)"
  by (subst binary64_eval [where e = 0]) (simp_all add: Let_def powr_minus rne_def)

subsection \<open>Logarithms of the scenario's sizes\<close>

lemma log2_1000_bounds: "199 / 20 < log 2 1000" "log 2 1000 < 10"
proof -
  have "(2::nat) ^ 199 < 1000 ^ 20" by simp
  then have "real (199::nat) < log 2 (real ((1000::nat) ^ 20))"
    by (rule less_log2_of_power)
  also have "real ((1000::nat) ^ 20) = (1000::real) ^ 20"
    by (simp only: of_nat_power of_nat_numeral)
  also have "log 2 ((1000::real) ^ 20) = 20 * log 2 1000"
    by (subst log_nat_power) simp_all
  finally show "199 / 20 < log 2 1000" by simp
  have "log 2 1000 < log 2 1024" by (subst log_less_cancel_iff) simp_all
  also have "log 2 1024 = log 2 (2 ^ 10)" by simp
  also have "\<dots> = 10" by (subst log_pow_cancel) simp_all
  finally show "log 2 1000 < 10" .
qed

lemma log2_2000: "log 2 2000 = 1 + log 2 1000"
proof -
  have "log 2 2000 = log 2 (2 * 1000)" by simp
  also have "\<dots> = log 2 2 + log 2 1000" by (subst log_mult) simp_all
  finally show ?thesis by simp
qed

lemma scenario_expected_bounds:
  "\<bar>2000 * log 2 2000 / (1000 * log 2 1000) - 2201 / 1000\<bar> < 1 / 1000"
proof -
  define L where "L = log 2 1000"
  have L: "199 / 20 < L" "L < 10" using log2_1000_bounds by (simp_all add: L_def)
  then have pos: "0 < L" by linarith
  have eq: "2000 * log 2 2000 / (1000 * log 2 1000) = 2 + 2 / L"
    using pos by (simp add: log2_2000 L_def [symmetric] field_simps)
  define x where "x = 2 / L"
  have "2 / L < 2 / (199 / 20)" using L pos by (intro divide_strict_left_mono) simp_all
  then have a: "x < 40 / 199" by (simp add: x_def)
  have "2 / 10 < 2 / L" using L pos by (intro divide_strict_left_mono) simp_all
  then have b: "1 / 5 < x" by (simp add: x_def)
  have "\<bar>2 + x - 2201 / 1000\<bar> < 1 / 1000" using a b by linarith
  then show ?thesis unfolding eq x_def .
qed

subsection \<open>Adjacent ratios\<close>

lemma nth_adjacent_ratio:
  assumes "1 \<le> i" "i < length xs"
  shows "map2 g (drop 1 xs) (butlast xs) ! (i - 1) = g (xs ! i) (xs ! (i - 1))"
proof -
  have j: "i - 1 < length xs - 1" using assms by linarith
  then have "map2 g (drop 1 xs) (butlast xs) ! (i - 1) =
      g (drop 1 xs ! (i - 1)) (butlast xs ! (i - 1))"
    by simp
  also have "drop 1 xs ! (i - 1) = xs ! i" using assms by simp
  also have "butlast xs ! (i - 1) = xs ! (i - 1)" using j by (simp add: nth_butlast)
  finally show ?thesis .
qed

lemma nth_upt_from_1: "1 \<le> i \<Longrightarrow> i < n \<Longrightarrow> [1..<n] ! (i - 1) = i"
  by (subst nth_upt) simp_all

lemma adjacent_ratios:
  assumes h: "2 \<le> length t" "1 \<le> i" "i < length t"
  shows "(\<exists>tr. time_ratios r (frame_of t) = Inr tr \<and> length tr = length t - 1 \<and>
          tr ! (i - 1) = fdiv r (Fin (total_ms (t ! i))) (Fin (total_ms (t ! (i - 1))))) \<and>
      (\<exists>er. theoretical_ratios r (frame_of t) = Inr er \<and> length er = length t - 1 \<and>
          er ! (i - 1) =
            fdiv r (fmul r (Fin (real (size_n (t ! i)))) (flog2 r (Fin (real (size_n (t ! i))))))
                   (fmul r (Fin (real (size_n (t ! (i - 1)))))
                           (flog2 r (Fin (real (size_n (t ! (i - 1))))))))"
proof -
  have tr: "time_ratios r (frame_of t) =
      Inr (map2 (fdiv r) (drop 1 (map (\<lambda>b. Fin (total_ms b)) t))
             (butlast (map (\<lambda>b. Fin (total_ms b)) t)))" for r
    by (simp add: time_ratios_def col_frame_of)
  have er: "theoretical_ratios r (frame_of t) =
      Inr (map (\<lambda>i. fdiv r
                 (fmul r (Fin (real (size_n (t ! i)))) (flog2 r (Fin (real (size_n (t ! i))))))
                 (fmul r (Fin (real (size_n (t ! (i - 1)))))
                         (flog2 r (Fin (real (size_n (t ! (i - 1))))))))
             [1..<length t])" if "2 \<le> length t" for r
    using that
    by (simp add: theoretical_ratios_def len_frame_of col_frame_of Let_def less_imp_diff_less
        del: fdiv.simps fmul.simps flog2.simps)
  have tri: "map2 (fdiv r) (drop 1 (map (\<lambda>b. Fin (total_ms b)) t))
             (butlast (map (\<lambda>b. Fin (total_ms b)) t)) ! (i - 1) =
      fdiv r (Fin (total_ms (t ! i))) (Fin (total_ms (t ! (i - 1))))"
    if "1 \<le> i" "i < length t" for r
    using that nth_adjacent_ratio [of i "map (\<lambda>b. Fin (total_ms b)) t" "fdiv r"]
    by (simp del: fdiv.simps)
  have eri: "map (\<lambda>i. fdiv r
                 (fmul r (Fin (real (size_n (t ! i)))) (flog2 r (Fin (real (size_n (t ! i))))))
                 (fmul r (Fin (real (size_n (t ! (i - 1)))))
                         (flog2 r (Fin (real (size_n (t ! (i - 1))))))))
             [1..<length t] ! (i - 1) =
      fdiv r (fmul r (Fin (real (size_n (t ! i)))) (flog2 r (Fin (real (size_n (t ! i))))))
             (fmul r (Fin (real (size_n (t ! (i - 1)))))
                     (flog2 r (Fin (real (size_n (t ! (i - 1)))))))"
    if "1 \<le> i" "i < length t" for r
  proof -
    have "i - 1 < length [1..<length t]" using that by simp
    then show ?thesis
      by (simp only: nth_map nth_upt_from_1 [OF that])
  qed
  show ?thesis
    unfolding tr er [OF h(1)] using tri [OF h(2,3)] eri [OF h(2,3)] by simp
qed

subsection \<open>The mean of a series\<close>

lemma finite_values_filter: "finite_values (filter (\<lambda>v. \<not> isnan v) s) = finite_values s"
  by (induction s rule: finite_values.induct) simp_all

lemma length_finite_values:
  "\<forall>v\<in>set s. isfinite v \<or> isnan v \<Longrightarrow>
     length (filter (\<lambda>v. \<not> isnan v) s) = length (finite_values s)"
  by (induction s rule: finite_values.induct) simp_all

lemma map2_same: "map2 f (map g t) (map h t) = map (\<lambda>b. f (g b) (h b)) t"
  by (induction t) simp_all

lemma fadd_nonfinite:
  "\<not> isfinite a \<Longrightarrow> \<not> isfinite (fadd r a b)" "\<not> isfinite b \<Longrightarrow> \<not> isfinite (fadd r a b)"
  by (cases a; cases b; simp)+

lemma fdiv_nonfinite: "\<not> isfinite a \<Longrightarrow> 0 \<le> y \<Longrightarrow> \<not> isfinite (fdiv r a (Fin y))"
  by (cases a) simp_all

lemma adds_up_nonfinite:
  "adds_up r xs v \<Longrightarrow> \<exists>x\<in>set xs. \<not> isfinite x \<Longrightarrow> \<not> isfinite v"
proof (induction rule: adds_up.induct)
  case zero
  then show ?case by simp
next
  case (one x)
  then show ?case by simp
next
  case (add xs a ys b)
  from add.prems have "(\<exists>x\<in>set xs. \<not> isfinite x) \<or> (\<exists>x\<in>set ys. \<not> isfinite x)"
    by auto
  then have "\<not> isfinite a \<or> \<not> isfinite b" using add.IH by blast
  then show ?case using fadd_nonfinite [of a r b] fadd_nonfinite(2) [of b r a] by blast
next
  case (swap xs x y ys a)
  from swap.prems have "\<exists>z\<in>set (xs @ x # y # ys). \<not> isfinite z" by auto
  then show ?case by (rule swap.IH)
qed

lemma finite_values_append: "finite_values (xs @ ys) = finite_values xs @ finite_values ys"
  by (induction xs rule: finite_values.induct) simp_all

lemma adds_up_exact:
  "adds_up exact xs v \<Longrightarrow> \<forall>x\<in>set xs. isfinite x \<Longrightarrow> v = Fin (sum_list (finite_values xs))"
proof (induction rule: adds_up.induct)
  case zero
  then show ?case by simp
next
  case (one x)
  then show ?case by (cases x) simp_all
next
  case (add xs a ys b)
  then show ?case by (simp add: finite_values_append exact_simps)
next
  case (swap xs x y ys a)
  then have "a = Fin (sum_list (finite_values (xs @ x # y # ys)))" by simp
  moreover have "sum_list (finite_values (xs @ x # y # ys)) =
      sum_list (finite_values (xs @ y # x # ys))"
    by (cases x; cases y; simp add: finite_values_append)
  ultimately show ?case by simp
qed

lemma adds_up_foldl: "adds_up r xs a \<Longrightarrow> adds_up r (xs @ ys) (foldl (fadd r) a ys)"
proof (induction ys arbitrary: xs a)
  case Nil
  then show ?case by simp
next
  case (Cons y ys)
  have "adds_up r (xs @ [y]) (fadd r a y)"
    using Cons.prems adds_up.one by (rule adds_up.add)
  then have "adds_up r ((xs @ [y]) @ ys) (foldl (fadd r) (fadd r a y) ys)"
    by (rule Cons.IH)
  then show ?case by simp
qed

lemma is_mean_mean: "is_mean r s (mean r s)"
proof -
  have "adds_up r ([] @ filter (\<lambda>v. \<not> isnan v) s)
          (foldl (fadd r) (Fin 0) (filter (\<lambda>v. \<not> isnan v) s))"
    using adds_up.zero by (rule adds_up_foldl)
  then show ?thesis by (auto simp add: is_mean_def mean_def Let_def simp del: fdiv.simps)
qed

lemma is_mean_all_nan:
  assumes "is_mean r s m" "\<forall>v\<in>set s. isnan v"
  shows "m = NaN"
proof -
  have "filter (\<lambda>v. \<not> isnan v) s = []" using assms(2) by (induction s) simp_all
  then show ?thesis using assms(1) by (simp add: is_mean_def)
qed

lemma is_mean_infinite:
  assumes m: "is_mean r s m" and inf: "\<exists>v\<in>set s. v = PInf \<or> v = NInf"
  shows "\<not> isfinite m"
proof -
  define vs where "vs = filter (\<lambda>v. \<not> isnan v) s"
  obtain x where x: "x \<in> set s" "x = PInf \<or> x = NInf" using inf by blast
  then have xv: "x \<in> set vs" "\<not> isfinite x" by (auto simp: vs_def)
  then have ne: "vs \<noteq> []" by auto
  then obtain v where v: "adds_up r vs v" "m = fdiv r v (Fin (real (length vs)))"
    using m by (auto simp add: is_mean_def vs_def [symmetric] Let_def simp del: fdiv.simps)
  have "\<not> isfinite v" using v(1) xv by (intro adds_up_nonfinite) blast+
  then show ?thesis unfolding v(2) by (intro fdiv_nonfinite) simp_all
qed

lemma is_mean_exact_finite:
  assumes m: "is_mean exact s m" and all: "\<forall>v\<in>set s. isfinite v \<or> isnan v"
    and some: "\<exists>v\<in>set s. isfinite v"
  shows "m = Fin (sum_list (finite_values s) / real (length (finite_values s)))"
proof -
  define vs where "vs = filter (\<lambda>v. \<not> isnan v) s"
  obtain x where x: "x \<in> set s" "isfinite x" using some by blast
  have "\<not> isnan x" using x(2) by (cases x) simp_all
  with x have "x \<in> set vs" by (simp add: vs_def)
  then have ne: "vs \<noteq> []" by auto
  then obtain v where v: "adds_up exact vs v" "m = fdiv exact v (Fin (real (length vs)))"
    using m by (auto simp add: is_mean_def vs_def [symmetric] Let_def simp del: fdiv.simps)
  have fin: "\<forall>v\<in>set vs. isfinite v" using all by (auto simp: vs_def)
  have "v = Fin (sum_list (finite_values vs))" using v(1) fin by (rule adds_up_exact)
  then have val: "v = Fin (sum_list (finite_values s))"
    by (simp add: vs_def finite_values_filter)
  have len: "length vs = length (finite_values s)"
    using all by (simp add: vs_def length_finite_values)
  have "real (length vs) \<noteq> 0" using ne by simp
  then show ?thesis unfolding v(2) val using len by (simp add: exact_simps)
qed

subsection \<open>Monotonicity of \<open>n \<sqdot> log\<^sub>2 n\<close>\<close>

lemma nlogn_mono:
  assumes "1 \<le> m" "m < (n::nat)"
  shows "real m * log 2 (real m) \<le> real n * log 2 (real n)" "0 < real n * log 2 (real n)"
proof -
  have l: "0 \<le> log 2 (real m)" using assms by simp
  have "log 2 (real m) \<le> log 2 (real n)" using assms by simp
  then show "real m * log 2 (real m) \<le> real n * log 2 (real n)"
    using assms l by (intro mult_mono) simp_all
  have "0 < log 2 (real n)" using assms by simp
  then show "0 < real n * log 2 (real n)" using assms by simp
qed

lemma expected_ratio_ge_1:
  assumes "1 \<le> m" "m < (n::nat)"
  shows "fle (Fin 1)
    (fdiv exact (fmul exact (Fin (real n)) (flog2 exact (Fin (real n))))
                (fmul exact (Fin (real m)) (flog2 exact (Fin (real m)))))"
proof (cases "m = 1")
  case True
  then show ?thesis using assms nlogn_mono(2) [OF assms]
    by (simp add: exact_simps signed_inf_def)
next
  case False
  then have m: "1 < m" using assms by simp
  then have lm: "0 < log 2 (real m)" by simp
  then have d: "0 < real m * log 2 (real m)" using m by simp
  have q: "1 \<le> real n * log 2 (real n) / (real m * log 2 (real m))"
    using nlogn_mono(1) [OF assms] d by (simp add: le_divide_eq)
  have nz: "log 2 (real m) \<noteq> 0" using lm by linarith
  have "fdiv exact (fmul exact (Fin (real n)) (flog2 exact (Fin (real n))))
                (fmul exact (Fin (real m)) (flog2 exact (Fin (real m)))) =
        Fin (real n * log 2 (real n) / (real m * log 2 (real m)))"
    using m assms nz by (simp add: exact_simps)
  then show ?thesis using q by simp
qed

subsection \<open>Chart builders and the driver\<close>

lemma print_line_simps [simp]:
  "files (print_line s w) = files w" "stdout (print_line s w) = stdout w @ [s]"
  by (simp_all add: print_line_def)

lemma savefig_simps [simp]:
  "files (savefig p c w) = (files w)(p \<mapsto> Png c)"
  "stdout (savefig p c w) = stdout w @ [''Saved: '' @ p]"
  by (simp_all add: savefig_def)

lemma col_absent: "c \<notin> set (columns df) \<Longrightarrow> col df c = Inl (KeyError c)"
  by (simp add: col_def)

lemma plot_overall_complexity_ok:
  assumes "''Size'' \<in> set (columns df)" "''Total(ms)'' \<in> set (columns df)"
    "''SA(ms)'' \<in> set (columns df)" "''LCP(ms)'' \<in> set (columns df)"
    "''n*log(n)'' \<in> set (columns df)" "rows df \<noteq> []"
  shows "\<exists>c. plot_overall_complexity r df dir w =
           Inr (savefig (dir @ ''/overall_complexity.png'') c w)"
proof -
  obtain row rest where "rows df = row # rest" using assms(6) by (cases "rows df") auto
  then show ?thesis using assms
    by (simp add: plot_overall_complexity_def theoretical_def col_present iloc0_Cons) blast
qed

lemma plot_sa_vs_lcp_ok:
  assumes "''Size'' \<in> set (columns df)" "''SA(ms)'' \<in> set (columns df)"
    "''LCP(ms)'' \<in> set (columns df)"
  shows "\<exists>c. plot_sa_vs_lcp r df dir w = Inr (savefig (dir @ ''/sa_vs_lcp.png'') c w)"
  using assms by (simp add: plot_sa_vs_lcp_def ratio_def col_present) blast

lemma plot_logarithmic_scale_ok:
  assumes "''Size'' \<in> set (columns df)" "''Total(ms)'' \<in> set (columns df)"
    "''SA(ms)'' \<in> set (columns df)" "''LCP(ms)'' \<in> set (columns df)" "rows df \<noteq> []"
  shows "\<exists>c. plot_logarithmic_scale r df dir w =
           Inr (savefig (dir @ ''/logarithmic_complexity.png'') c w)"
proof -
  obtain row rest where "rows df = row # rest" using assms(5) by (cases "rows df") auto
  then show ?thesis using assms
    by (simp add: plot_logarithmic_scale_def y_n_def y_nlogn_def col_present iloc0_Cons) blast
qed

lemma plot_overall_complexity_missing:
  assumes "find (\<lambda>c. c \<notin> set (columns df))
             [''Size'', ''Total(ms)'', ''SA(ms)'', ''LCP(ms)'', ''n*log(n)''] = Some c"
  shows "plot_overall_complexity r df dir w = Inl (KeyError c)"
  using assms
  by (auto simp add: plot_overall_complexity_def theoretical_def col_present col_absent
      split: if_splits)

lemma load_data_Csv: "files w p = Some (Csv df) \<Longrightarrow> load_data w p = Inr df"
  by (simp add: load_data_def)

lemma plot_search_performance_missing:
  "''Search(ns)'' \<notin> set (columns df) \<Longrightarrow>
     plot_search_performance r df dir w = Inl (KeyError ''Search(ns)'')"
  by (simp add: plot_search_performance_def search_us_def col_absent)

lemma first_missing_cases:
  assumes "first_missing df = Some c"
  shows "find (\<lambda>c. c \<notin> set (columns df))
             [''Size'', ''Total(ms)'', ''SA(ms)'', ''LCP(ms)'', ''n*log(n)''] = Some c \<or>
         (c = ''Search(ns)'' \<and> ''Search(ns)'' \<notin> set (columns df) \<and>
          ''Size'' \<in> set (columns df) \<and> ''Total(ms)'' \<in> set (columns df) \<and>
          ''SA(ms)'' \<in> set (columns df) \<and> ''LCP(ms)'' \<in> set (columns df) \<and>
          ''n*log(n)'' \<in> set (columns df))"
  using assms by (auto simp add: first_missing_def split: if_splits)

lemma main_loaded:
  assumes "files w csv_path = Some (Csv df)"
  shows "snd (main r w) =
           snd (run_plots (plots r) df output_dir
                  (print_line (CHR 0x0A # ''Generating plots...'')
                     (print_line ''Loading benchmark data...'' w)))"
    and "files (fst (main r w)) =
           files (fst (run_plots (plots r) df output_dir
                  (print_line (CHR 0x0A # ''Generating plots...'')
                     (print_line ''Loading benchmark data...'' w))))"
  using assms
  by (simp_all add: main_def path_exists_def load_data_def Let_def
      split: prod.splits option.splits)

subsection \<open>binary64 keeps the order\<close>

text \<open>
  Rounding to the nearest integer is monotone, so \<open>round53\<close> is monotone on the numbers
  that are not negative: within one binade the spacing is the same, and a number of a
  lower binade is rounded to at most the power of two that starts the next one.
\<close>

lemma rne_near: "\<bar>of_int (rne x) - x\<bar> \<le> 1 / 2"
proof -
  have "of_int \<lfloor>x\<rfloor> \<le> x" "x < of_int \<lfloor>x\<rfloor> + 1" by linarith+
  then show ?thesis by (simp add: rne_def Let_def)
qed

lemma rne_mono: "x \<le> y \<Longrightarrow> rne x \<le> rne y"
proof (rule ccontr)
  assume le: "x \<le> y" and "\<not> rne x \<le> rne y"
  then have "rne y + 1 \<le> rne x" by simp
  then have d: "real_of_int (rne y) + 1 \<le> real_of_int (rne x)" by linarith
  have "real_of_int (rne x) \<le> x + 1 / 2" "y - 1 / 2 \<le> real_of_int (rne y)"
    using rne_near [of x] rne_near [of y] by linarith+
  with d le have "x = y" by linarith
  then have "rne x = rne y" by simp
  with \<open>\<not> rne x \<le> rne y\<close> show False by simp
qed

lemma rne_nonneg: "0 \<le> x \<Longrightarrow> 0 \<le> rne x"
  using rne_mono [of 0 x] rne_of_int [of 0] by simp

lemma round53_pos_form:
  assumes "0 < x"
  shows "round53 x =
    2 powr (of_int (max \<lfloor>log 2 x\<rfloor> (- 1022)) - 52) *
      of_int (rne (x / 2 powr (of_int (max \<lfloor>log 2 x\<rfloor> (- 1022)) - 52)))"
  using assms by (simp add: round53_def Let_def)

lemma round53_nonneg: "0 \<le> x \<Longrightarrow> 0 \<le> round53 x"
proof (cases "x = 0")
  case True
  then show ?thesis by (simp add: round53_def)
next
  case False
  assume "0 \<le> x"
  with False have x: "0 < x" by simp
  have "0 \<le> rne (x / 2 powr (of_int (max \<lfloor>log 2 x\<rfloor> (- 1022)) - 52))"
    using x by (intro rne_nonneg) simp
  then show ?thesis unfolding round53_pos_form [OF x] by simp
qed

lemma two_powr_53: "2 powr (a - 52) * 2 ^ 53 = 2 powr (a + 1)" for a :: real
proof -
  have "(2::real) ^ 53 = 2 powr 53" by (simp add: powr_numeral)
  then have "2 powr (a - 52) * 2 ^ 53 = 2 powr (a - 52 + 53)" by (simp only: powr_add)
  then show ?thesis by (simp add: algebra_simps)
qed

lemma two_powr_52: "2 powr (a - 52) * 2 ^ 52 = 2 powr a" for a :: real
proof -
  have "(2::real) ^ 52 = 2 powr 52" by (simp add: powr_numeral)
  then have "2 powr (a - 52) * 2 ^ 52 = 2 powr (a - 52 + 52)" by (simp only: powr_add)
  then show ?thesis by simp
qed

lemma round53_upper:
  assumes x: "0 < x"
  shows "round53 x \<le> 2 powr (of_int (max \<lfloor>log 2 x\<rfloor> (- 1022)) + 1)"
proof -
  define e where "e = max \<lfloor>log 2 x\<rfloor> (- 1022)"
  define u where "u = (2::real) powr (of_int e - 52)"
  have u: "0 < u" by (simp add: u_def)
  have "log 2 x < of_int \<lfloor>log 2 x\<rfloor> + 1" by linarith
  also have "\<dots> \<le> of_int e + 1" by (simp add: e_def)
  finally have "log 2 x < of_int e + 1" .
  then have "x < 2 powr (of_int e + 1)" using x by (simp add: log_less_iff)
  also have "\<dots> = u * 2 ^ 53" unfolding u_def by (rule two_powr_53 [symmetric])
  finally have "x < 2 ^ 53 * u" by (simp only: mult.commute)
  then have "x / u < 2 ^ 53" using u by (simp only: divide_less_eq if_True)
  then have "x / u \<le> of_int (2 ^ 53)" by simp
  then have "rne (x / u) \<le> rne (of_int (2 ^ 53))" by (rule rne_mono)
  then have "rne (x / u) \<le> 2 ^ 53" by (simp only: rne_of_int)
  then have "real_of_int (rne (x / u)) \<le> real_of_int (2 ^ 53)" by (simp only: of_int_le_iff)
  then have "real_of_int (rne (x / u)) \<le> 2 ^ 53" by simp
  then have "u * real_of_int (rne (x / u)) \<le> u * 2 ^ 53"
    using u by (intro mult_left_mono) simp_all
  also have "u * 2 ^ 53 = 2 powr (of_int e + 1)" unfolding u_def by (rule two_powr_53)
  finally show ?thesis
    unfolding round53_pos_form [OF x] e_def [symmetric] u_def [symmetric] .
qed

lemma round53_lower:
  assumes x: "0 < x" and normal: "- 1022 \<le> \<lfloor>log 2 x\<rfloor>"
  shows "2 powr (of_int \<lfloor>log 2 x\<rfloor>) \<le> round53 x"
proof -
  define e where "e = \<lfloor>log 2 x\<rfloor>"
  define u where "u = (2::real) powr (of_int e - 52)"
  have m: "max e (- 1022) = e" using normal by (simp add: e_def)
  have u: "0 < u" by (simp add: u_def)
  have "of_int e \<le> log 2 x" by (simp add: e_def)
  then have "2 powr (of_int e) \<le> x" using x by (simp add: le_log_iff)
  moreover have "2 powr (of_int e) = u * 2 ^ 52"
    unfolding u_def by (rule two_powr_52 [symmetric])
  ultimately have "2 ^ 52 * u \<le> x" by (simp only: mult.commute)
  then have "2 ^ 52 \<le> x / u" using u by (simp only: le_divide_eq if_True)
  then have "of_int (2 ^ 52) \<le> x / u" by simp
  then have "rne (of_int (2 ^ 52)) \<le> rne (x / u)" by (rule rne_mono)
  then have "2 ^ 52 \<le> rne (x / u)" by (simp only: rne_of_int)
  then have "real_of_int (2 ^ 52) \<le> real_of_int (rne (x / u))" by (simp only: of_int_le_iff)
  then have "2 ^ 52 \<le> real_of_int (rne (x / u))" by simp
  then have "u * 2 ^ 52 \<le> u * real_of_int (rne (x / u))"
    using u by (intro mult_left_mono) simp_all
  moreover have "u * 2 ^ 52 = 2 powr (of_int e)" unfolding u_def by (rule two_powr_52)
  ultimately have "2 powr (of_int e) \<le> u * real_of_int (rne (x / u))" by (simp only:)
  then show ?thesis
    unfolding round53_pos_form [OF x] e_def [symmetric] m u_def [symmetric] .
qed

lemma round53_mono:
  assumes "0 \<le> x" "x \<le> y"
  shows "round53 x \<le> round53 y"
proof (cases "x = 0")
  case True
  then show ?thesis using assms round53_nonneg [of y] by (simp add: round53_def)
next
  case False
  then have x: "0 < x" and y: "0 < y" using assms by simp_all
  define ex where "ex = max \<lfloor>log 2 x\<rfloor> (- 1022)"
  define ey where "ey = max \<lfloor>log 2 y\<rfloor> (- 1022)"
  have "log 2 x \<le> log 2 y" using x y assms by simp
  then have fl: "\<lfloor>log 2 x\<rfloor> \<le> \<lfloor>log 2 y\<rfloor>" by (rule floor_mono)
  then have le: "ex \<le> ey" by (simp add: ex_def ey_def)
  show ?thesis
  proof (cases "ex = ey")
    case True
    define u where "u = (2::real) powr (of_int ey - 52)"
    have u: "0 < u" by (simp add: u_def)
    have "x / u \<le> y / u" using assms u by (simp add: divide_right_mono)
    then have "rne (x / u) \<le> rne (y / u)" by (rule rne_mono)
    then have "real_of_int (rne (x / u)) \<le> real_of_int (rne (y / u))" by linarith
    then have "u * real_of_int (rne (x / u)) \<le> u * real_of_int (rne (y / u))"
      using u by simp
    then show ?thesis
      unfolding round53_pos_form [OF x] round53_pos_form [OF y]
        ex_def [symmetric] ey_def [symmetric] True u_def [symmetric] .
  next
    case False
    with le have lt: "ex + 1 \<le> ey" by simp
    then have "- 1022 < ey" by (simp add: ex_def)
    then have ny: "- 1022 \<le> \<lfloor>log 2 y\<rfloor>" and eyf: "ey = \<lfloor>log 2 y\<rfloor>"
      by (simp_all add: ey_def max_def split: if_splits)
    have "round53 x \<le> 2 powr (of_int ex + 1)"
      using round53_upper [OF x] by (simp add: ex_def)
    also have "\<dots> \<le> 2 powr (of_int ey)"
    proof -
      have "real_of_int ex + 1 \<le> real_of_int ey" using lt by linarith
      then show ?thesis by simp
    qed
    also have "\<dots> \<le> round53 y"
      using round53_lower [OF y ny] by (simp add: eyf)
    finally show ?thesis .
  qed
qed

lemma round53_pow2:
  assumes "k \<le> 1023"
  shows "round53 (2 ^ k) = 2 ^ k"
proof -
  have p: "(2::real) ^ k = 2 powr (of_int (int k))" by (simp add: powr_realpow)
  have "round53 (2 ^ k) =
      2 powr (of_int (int k) - 52) * of_int (rne (2 ^ k / 2 powr (of_int (int k) - 52)))"
    by (rule round53_eval) (simp_all add: p)
  moreover have "(2::real) ^ k / 2 powr (of_int (int k) - 52) = of_int (2 ^ 52)"
  proof -
    have "(2::real) ^ k / 2 powr (of_int (int k) - 52) =
        2 powr (of_int (int k) - (of_int (int k) - 52))"
      unfolding p by (rule powr_diff [symmetric])
    also have "\<dots> = 2 powr 52" by simp
    also have "\<dots> = of_int (2 ^ 52)" by (simp add: powr_numeral)
    finally show ?thesis .
  qed
  ultimately have "round53 (2 ^ k) = 2 powr (of_int (int k) - 52) * of_int (2 ^ 52)"
    by (simp only: rne_of_int)
  also have "\<dots> = 2 powr (of_int (int k) - 52) * 2 ^ 52" by simp
  also have "\<dots> = 2 powr (of_int (int k))" by (rule two_powr_52)
  finally show ?thesis by (simp only: p)
qed

lemma binary64_pow2:
  assumes "k \<le> 70"
  shows "binary64 (2 ^ k) = Fin (2 ^ k)"
proof -
  have r: "round53 (2 ^ k) = 2 ^ k" using assms by (intro round53_pow2) simp
  have "(2::real) ^ k \<le> 2 ^ 70" using assms by (intro power_increasing) simp_all
  also have "\<dots> < 2 ^ 1024" by (intro power_strict_increasing) simp_all
  also have "(2::real) ^ 1024 = 2 powr 1024" by (simp add: powr_numeral)
  finally have "\<not> 2 powr 1024 \<le> \<bar>(2::real) ^ k\<bar>" by simp
  then show ?thesis by (simp add: binary64_def r Let_def)
qed

lemma binary64_mono:
  assumes "0 \<le> x" "x \<le> y"
  shows "fle (binary64 x) (binary64 y)"
proof -
  have y: "0 \<le> y" using assms by simp
  have a: "0 \<le> round53 x" using assms(1) by (rule round53_nonneg)
  have b: "round53 x \<le> round53 y" using assms by (rule round53_mono)
  have p: "0 < (2::real) powr 1024" by simp
  show ?thesis using a b p by (simp add: binary64_def Let_def)
qed

lemma monotone_rounding_binary64: "monotone_rounding binary64"
  by (simp add: monotone_rounding_def binary64_mono binary64_pow2 binary64_0)

lemma monotone_rounding_exact: "monotone_rounding exact"
  by (simp add: monotone_rounding_def)

lemma rounding_between:
  assumes r: "monotone_rounding r" and lo: "0 \<le> lo" "lo \<le> x" and hi: "x \<le> hi"
    and flo: "r lo = Fin lo" and fhi: "r hi = Fin hi"
  shows "\<exists>a. r x = Fin a \<and> lo \<le> a \<and> a \<le> hi"
proof -
  have 1: "fle (Fin lo) (r x)" using r lo flo by (metis monotone_rounding_def)
  have "0 \<le> x" using lo by simp
  then have 2: "fle (r x) (Fin hi)" using r hi fhi by (metis monotone_rounding_def)
  show ?thesis using 1 2 by (cases "r x") simp_all
qed

lemma rounding_fixes:
  assumes "monotone_rounding r"
  shows "r 0 = Fin 0" "r 1 = Fin 1" "r 64 = Fin 64" "r (2 ^ 70) = Fin (2 ^ 70)"
proof -
  have p: "\<And>k. k \<le> 70 \<Longrightarrow> r (2 ^ k) = Fin (2 ^ k)" and z: "r 0 = Fin 0"
    using assms by (simp_all add: monotone_rounding_def)
  show "r 0 = Fin 0" by (rule z)
  show "r 1 = Fin 1" using p [of 0] by simp
  show "r 64 = Fin 64" using p [of 6] by simp
  show "r (2 ^ 70) = Fin (2 ^ 70)" using p [of 70] by simp
qed

lemma rounded_nlogn:
  assumes r: "monotone_rounding r" and n: "2 \<le> n" "n < 2 ^ 64"
  shows "\<exists>l p. flog2 r (Fin (real n)) = Fin l \<and> 1 \<le> l \<and> l \<le> 64 \<and>
           fmul r (Fin (real n)) (Fin l) = Fin p \<and> 1 \<le> p"
proof -
  note f = rounding_fixes [OF r]
  have "(2::nat) ^ 1 \<le> n" using n by simp
  then have "real (1::nat) \<le> log 2 (real n)" by (rule le_log2_of_power)
  then have l1: "1 \<le> log 2 (real n)" by simp
  have "n \<le> 2 ^ 64" using n by simp
  then have "log 2 (real n) \<le> real (64::nat)" using n by (intro log_of_power_le) simp_all
  then have l2: "log 2 (real n) \<le> 64" by simp
  obtain l where l: "r (log 2 (real n)) = Fin l" "1 \<le> l" "l \<le> 64"
    using rounding_between [OF r _ l1 l2 f(2) f(3)] by auto
  have nr: "2 \<le> real n" "real n \<le> 2 ^ 64"
    using n by (simp_all add: of_nat_le_iff [of n "2 ^ 64", simplified] less_imp_le)
  have p1: "1 \<le> real n * l"
  proof -
    have "1 * 1 \<le> real n * l" using nr l by (intro mult_mono) simp_all
    then show ?thesis by simp
  qed
  have "real n * l \<le> 2 ^ 64 * 64" using nr l by (intro mult_mono) simp_all
  then have p2: "real n * l \<le> 2 ^ 70" by simp
  obtain p where p: "r (real n * l) = Fin p" "1 \<le> p"
    using rounding_between [OF r _ p1 p2 f(2) f(4)] by auto
  have "flog2 r (Fin (real n)) = Fin l" using n l by simp
  moreover have "fmul r (Fin (real n)) (Fin l) = Fin p" using p by simp
  ultimately show ?thesis using l p by blast
qed

lemma rounding_mono:
  "monotone_rounding r \<Longrightarrow> 0 \<le> x \<Longrightarrow> x \<le> y \<Longrightarrow> fle (r x) (r y)"
  by (simp add: monotone_rounding_def)

lemma expected_ratio_ge_1_rounded:
  assumes r: "monotone_rounding r" and m: "1 \<le> m" "m < n" and n: "n < 2 ^ 64"
  shows "fle (Fin 1)
    (fdiv r (fmul r (Fin (real n)) (flog2 r (Fin (real n))))
            (fmul r (Fin (real m)) (flog2 r (Fin (real m)))))"
proof -
  note f = rounding_fixes [OF r]
  have n2: "2 \<le> n" using m by simp
  obtain ln pn where ln: "flog2 r (Fin (real n)) = Fin ln" "1 \<le> ln"
    and pn: "fmul r (Fin (real n)) (Fin ln) = Fin pn" "1 \<le> pn"
    using rounded_nlogn [OF r n2 n] by blast
  show ?thesis
  proof (cases "m = 1")
    case True
    have "fmul r (Fin (real m)) (flog2 r (Fin (real m))) = Fin 0"
      using True f(1) by simp
    moreover have "fdiv r (Fin pn) (Fin 0) = PInf"
      using pn(2) by (simp add: signed_inf_def)
    ultimately show ?thesis by (simp only: ln pn fle.simps)
  next
    case False
    then have m2: "2 \<le> m" using m by simp
    have mb: "m < 2 ^ 64" using m n by simp
    obtain lm pm where lm: "flog2 r (Fin (real m)) = Fin lm" "1 \<le> lm"
      and pm: "fmul r (Fin (real m)) (Fin lm) = Fin pm" "1 \<le> pm"
      using rounded_nlogn [OF r m2 mb] by blast
    have rm: "r (log 2 (real m)) = Fin lm" using lm(1) m2 by simp
    have rn: "r (log 2 (real n)) = Fin ln" using ln(1) n2 by simp
    have "0 \<le> log 2 (real m)" using m2 by simp
    moreover have "log 2 (real m) \<le> log 2 (real n)" using m m2 by simp
    ultimately have "fle (r (log 2 (real m))) (r (log 2 (real n)))"
      by (rule rounding_mono [OF r])
    then have ll: "lm \<le> ln" by (simp add: rm rn)
    have q: "real m * lm \<le> real n * ln" using m ll lm(2) by (intro mult_mono) simp_all
    have "0 \<le> real m * lm" using lm(2) by simp
    then have "fle (r (real m * lm)) (r (real n * ln))" using q by (rule rounding_mono [OF r])
    moreover have "r (real m * lm) = Fin pm" "r (real n * ln) = Fin pn"
      using pm(1) pn(1) by simp_all
    ultimately have pp: "pm \<le> pn" by simp
    have "1 \<le> pn / pm" using pp pm(2) by (simp add: le_divide_eq)
    then have "fle (r 1) (r (pn / pm))" by (intro rounding_mono [OF r]) simp_all
    then have "fle (Fin 1) (r (pn / pm))" by (simp only: f(2))
    moreover have "fdiv r (Fin pn) (Fin pm) = r (pn / pm)" using pm(2) by simp
    ultimately show ?thesis by (simp only: lm ln pm pn)
  qed
qed

section \<open>The claims\<close>

subsection \<open>C1: the curves anchored at the first row\<close>

text \<open>
  C1. For a non-empty table, the theoretical total-time curve and the two log-log
  reference curves take, at index 0, the observed total time of row 0.

  As the program computes them this holds under conditions. The total-time curve is
  \<open>(nlogn[i] / nlogn[0]) * total[0]\<close>: at index 0 it is \<open>total[0]\<close> exactly, for every
  rounding that keeps 1 and \<open>total[0]\<close>, when \<open>nlogn[0]\<close> is not zero; without rounding the
  series is the reference column scaled by \<open>total[0] / nlogn[0]\<close>. The reference curves
  \<open>x * total[0] / size[0]\<close> and \<open>x * log2(x) * total[0] / (size[0] * log2(size[0]))\<close> take
  the value \<open>total[0]\<close> at index 0 in arithmetic without rounding, the first when
  \<open>size[0] > 0\<close>, the second when \<open>size[0] > 1\<close>.
\<close>

theorem curves_anchored_at_first_row:
  assumes ne: "t \<noteq> []"
  shows "(nlogn (hd t) \<noteq> 0 \<and> r 1 = Fin 1 \<and> r (total_ms (hd t)) = Fin (total_ms (hd t)) \<longrightarrow>
            (\<exists>s. theoretical r (frame_of t) = Inr s \<and> length s = length t \<and>
                 s ! 0 = Fin (total_ms (hd t)))) \<and>
         (nlogn (hd t) \<noteq> 0 \<longrightarrow>
            theoretical exact (frame_of t) =
              Inr (map (\<lambda>b. Fin (nlogn b * (total_ms (hd t) / nlogn (hd t)))) t)) \<and>
         (0 < size_n (hd t) \<longrightarrow>
            (\<exists>s. y_n exact (frame_of t) = Inr s \<and> length s = length t \<and>
                 s ! 0 = Fin (total_ms (hd t)))) \<and>
         (1 < size_n (hd t) \<longrightarrow>
            (\<exists>s. y_nlogn exact (frame_of t) = Inr s \<and> length s = length t \<and>
                 s ! 0 = Fin (total_ms (hd t))))"
proof -
  obtain b bs where t: "t = b # bs" using ne by (cases t) auto
  have 1: "\<exists>s. theoretical r (frame_of t) = Inr s \<and> length s = length t \<and>
                 s ! 0 = Fin (total_ms (hd t))"
    if "nlogn (hd t) \<noteq> 0" "r 1 = Fin 1" "r (total_ms (hd t)) = Fin (total_ms (hd t))"
    using that by (simp add: theoretical_def col_frame_of t iloc0_Cons)
  have 2: "theoretical exact (frame_of t) =
              Inr (map (\<lambda>b. Fin (nlogn b * (total_ms (hd t) / nlogn (hd t)))) t)"
    if "nlogn (hd t) \<noteq> 0"
    using that by (simp add: theoretical_def col_frame_of t iloc0_Cons)
  have 3: "\<exists>s. y_n exact (frame_of t) = Inr s \<and> length s = length t \<and>
                 s ! 0 = Fin (total_ms (hd t))"
    if "0 < size_n (hd t)"
    using that by (simp add: y_n_def col_frame_of t iloc0_Cons)
  have 4: "\<exists>s. y_nlogn exact (frame_of t) = Inr s \<and> length s = length t \<and>
                 s ! 0 = Fin (total_ms (hd t))"
    if "1 < size_n (hd t)"
  proof -
    have "0 < log 2 (real (size_n b))" using that by (simp add: t)
    then have "log 2 (real (size_n b)) \<noteq> 0" by linarith
    then show ?thesis using that by (simp add: y_nlogn_def col_frame_of t iloc0_Cons)
  qed
  show ?thesis using 1 2 3 4 by blast
qed

theorem curves_anchored_at_first_row_witness:
  "scenario \<noteq> [] \<and> nlogn (hd scenario) \<noteq> 0 \<and> binary64 1 = Fin 1 \<and>
   binary64 (total_ms (hd scenario)) = Fin (total_ms (hd scenario)) \<and>
   1 < size_n (hd scenario) \<and>
   (\<exists>s. theoretical binary64 (frame_of scenario) = Inr s \<and> length s = length scenario \<and>
        s ! 0 = Fin (total_ms (hd scenario))) \<and>
   (\<exists>s. y_n exact (frame_of scenario) = Inr s \<and> length s = length scenario \<and>
        s ! 0 = Fin (total_ms (hd scenario))) \<and>
   (\<exists>s. y_nlogn exact (frame_of scenario) = Inr s \<and> length s = length scenario \<and>
        s ! 0 = Fin (total_ms (hd scenario)))"
proof -
  have h: "scenario \<noteq> []" "nlogn (hd scenario) \<noteq> 0" "binary64 1 = Fin 1"
    "binary64 (total_ms (hd scenario)) = Fin (total_ms (hd scenario))"
    "1 < size_n (hd scenario)" "0 < size_n (hd scenario)"
    by (simp_all add: scenario_def binary64_1 binary64_three_halves)
  show ?thesis
    using h curves_anchored_at_first_row [OF h(1), of binary64] by blast
qed

text \<open>
  Where C1 fails as stated. With \<open>size[0] = 1\<close> the O(n log n) reference curve is
  \<open>0 / 0\<close>, NaN, at index 0, whatever the rounding. With \<open>size[0] = 3\<close> and
  \<open>total[0] = 0.1\<close>, binary64 gives the O(n) reference curve the value
  \<open>0.10000000000000002\<close> at index 0: the product is rounded before the division.
\<close>

theorem first_row_anchor_counterexample:
  "y_nlogn exact (frame_of unit_size_table) = Inr [NaN] \<and>
   y_nlogn binary64 (frame_of unit_size_table) = Inr [NaN] \<and>
   total_ms (hd unit_size_table) = 3 / 2 \<and>
   y_n binary64 (frame_of tenth_table) = Inr [Fin (7205759403792795 / 72057594037927936)] \<and>
   total_ms (hd tenth_table) = 3602879701896397 / 36028797018963968"
proof -
  have a: "y_nlogn exact (frame_of unit_size_table) = Inr [NaN]"
    by (simp add: y_nlogn_def col_frame_of unit_size_table_def iloc0_Cons signed_inf_def)
  have b: "y_nlogn binary64 (frame_of unit_size_table) = Inr [NaN]"
    by (simp add: y_nlogn_def col_frame_of unit_size_table_def iloc0_Cons signed_inf_def
        binary64_0)
  have "fmul binary64 (Fin 3) (Fin (3602879701896397 / 36028797018963968)) =
          Fin (1351079888211149 / 4503599627370496)"
    by (simp only: fmul.simps binary64_tenth_times_3)
  moreover have "fdiv binary64 (Fin (1351079888211149 / 4503599627370496)) (Fin 3) =
          Fin (7205759403792795 / 72057594037927936)"
    by (simp only: fdiv.simps binary64_tenth_times_3_div_3) simp
  ultimately have c: "y_n binary64 (frame_of tenth_table) =
      Inr [Fin (7205759403792795 / 72057594037927936)]"
    by (simp only: y_n_def col_frame_of tenth_table_def iloc0_Cons ebind_simps list.map
        benchmark_row.simps of_nat_numeral)
  show ?thesis using a b c by (simp add: unit_size_table_def tenth_table_def)
qed

subsection \<open>C2: the search-time curve anchored at the last row\<close>

text \<open>
  C2. The search times are divided by 1000 (nanoseconds to microseconds). For a non-empty
  table whose last size is above 1, in arithmetic without rounding, the theoretical
  search-time curve is \<open>log2(size[i]) * (search_time[last] / 1000) / log2(size[last])\<close> at
  every index \<open>i\<close> of positive size, and its last value is the search time of the last
  row in microseconds.
\<close>

theorem search_curve_anchored_at_last_row:
  assumes ne: "t \<noteq> []" and big: "1 < size_n (last t)"
  shows "search_us exact (frame_of t) = Inr (map (\<lambda>b. Fin (search_ns b / 1000)) t) \<and>
         (\<exists>s. theoretical_logn exact (frame_of t) = Inr s \<and> length s = length t \<and>
              (\<forall>i<length t. 0 < size_n (t ! i) \<longrightarrow>
                 s ! i = Fin (log 2 (real (size_n (t ! i))) * (search_ns (last t) / 1000) /
                              log 2 (real (size_n (last t))))) \<and>
              last s = Fin (search_ns (last t) / 1000))"
proof -
  define k where "k = (search_ns (last t) / 1000) / log 2 (real (size_n (last t)))"
  have lpos: "0 < log 2 (real (size_n (last t)))" using big by simp
  then have lnz: "log 2 (real (size_n (last t))) \<noteq> 0" by linarith
  have us: "search_us exact (frame_of t) = Inr (map (\<lambda>b. Fin (search_ns b / 1000)) t)"
    by (simp add: search_us_def col_frame_of exact_simps)
  have th: "theoretical_logn exact (frame_of t) =
      Inr (map (\<lambda>b. fmul exact (flog2 exact (Fin (real (size_n b)))) (Fin k)) t)"
    using ne big lnz
    by (simp add: theoretical_logn_def us col_frame_of iloc_last_map exact_simps k_def
        comp_def)
  have at: "fmul exact (flog2 exact (Fin (real (size_n b)))) (Fin k) =
      Fin (log 2 (real (size_n b)) * (search_ns (last t) / 1000) /
           log 2 (real (size_n (last t))))" if "0 < size_n b" for b
    using that by (simp add: exact_simps k_def)
  have lst: "last (map (\<lambda>b. fmul exact (flog2 exact (Fin (real (size_n b)))) (Fin k)) t) =
      Fin (search_ns (last t) / 1000)"
    using ne big lnz by (simp add: last_map exact_simps k_def)
  have idx: "\<forall>i<length t. 0 < size_n (t ! i) \<longrightarrow>
      map (\<lambda>b. fmul exact (flog2 exact (Fin (real (size_n b)))) (Fin k)) t ! i =
      Fin (log 2 (real (size_n (t ! i))) * (search_ns (last t) / 1000) /
           log 2 (real (size_n (last t))))"
  proof (intro allI impI)
    fix i assume "i < length t" "0 < size_n (t ! i)"
    then show "map (\<lambda>b. fmul exact (flog2 exact (Fin (real (size_n b)))) (Fin k)) t ! i =
      Fin (log 2 (real (size_n (t ! i))) * (search_ns (last t) / 1000) /
           log 2 (real (size_n (last t))))"
      using at [of "t ! i"] by (simp only: nth_map)
  qed
  have "\<exists>s. theoretical_logn exact (frame_of t) = Inr s \<and> length s = length t \<and>
              (\<forall>i<length t. 0 < size_n (t ! i) \<longrightarrow>
                 s ! i = Fin (log 2 (real (size_n (t ! i))) * (search_ns (last t) / 1000) /
                              log 2 (real (size_n (last t))))) \<and>
              last s = Fin (search_ns (last t) / 1000)"
    using th idx lst length_map by blast
  with us show ?thesis by blast
qed

theorem search_curve_anchored_at_last_row_witness:
  "scenario \<noteq> [] \<and> 1 < size_n (last scenario) \<and>
   search_us exact (frame_of scenario) = Inr (map (\<lambda>b. Fin (search_ns b / 1000)) scenario) \<and>
   (\<exists>s. theoretical_logn exact (frame_of scenario) = Inr s \<and> length s = length scenario \<and>
        (\<forall>i<length scenario. 0 < size_n (scenario ! i) \<longrightarrow>
           s ! i = Fin (log 2 (real (size_n (scenario ! i))) * (search_ns (last scenario) / 1000) /
                        log 2 (real (size_n (last scenario))))) \<and>
        last s = Fin (search_ns (last scenario) / 1000))"
proof -
  have h: "scenario \<noteq> []" "1 < size_n (last scenario)"
    by (simp_all add: scenario_def)
  show ?thesis
    using h search_curve_anchored_at_last_row [OF h] by blast
qed

text \<open>
  Where C2 fails as stated. For the table of one row of size 1, \<open>log2(size[last]) = 0\<close>
  and the curve is \<open>0 * inf\<close>, NaN, whatever the rounding. With size 8 and a search time of
  1800 ns, binary64 gives the last value \<open>1.7999999999999998\<close>, not the observed
  \<open>1.8\<close>: the quotient by \<open>log2(size[last])\<close> is rounded before the product.
\<close>

theorem last_row_anchor_counterexample:
  "search_us exact (frame_of unit_size_table) = Inr [Fin 2] \<and>
   theoretical_logn exact (frame_of unit_size_table) = Inr [NaN] \<and>
   search_us binary64 (frame_of unit_size_table) = Inr [Fin 2] \<and>
   theoretical_logn binary64 (frame_of unit_size_table) = Inr [NaN] \<and>
   search_us binary64 (frame_of eight_table) =
     Inr [Fin (8106479329266893 / 4503599627370496)] \<and>
   theoretical_logn binary64 (frame_of eight_table) =
     Inr [Fin (2026619832316723 / 1125899906842624)]"
proof -
  have a: "search_us exact (frame_of unit_size_table) = Inr [Fin 2]"
    by (simp add: search_us_def col_frame_of unit_size_table_def exact_simps)
  have b: "theoretical_logn exact (frame_of unit_size_table) = Inr [NaN]"
    by (simp add: theoretical_logn_def search_us_def col_frame_of unit_size_table_def
        iloc_last_def exact_simps signed_inf_def)
  have c: "search_us binary64 (frame_of unit_size_table) = Inr [Fin 2]"
    by (simp add: search_us_def col_frame_of unit_size_table_def binary64_2)
  have d: "theoretical_logn binary64 (frame_of unit_size_table) = Inr [NaN]"
    unfolding theoretical_logn_def c
    by (simp add: col_frame_of unit_size_table_def iloc_last_def binary64_0 signed_inf_def)
  have e: "search_us binary64 (frame_of eight_table) =
     Inr [Fin (8106479329266893 / 4503599627370496)]"
    by (simp add: search_us_def col_frame_of eight_table_def binary64_9_5)
  have l: "flog2 binary64 (Fin 8) = Fin 3"
    by (simp add: log2_8 binary64_3)
  have q: "fdiv binary64 (Fin (8106479329266893 / 4503599627370496)) (Fin 3) =
      Fin (5404319552844595 / 9007199254740992)"
    by (simp add: binary64_us_div_3)
  have m: "fmul binary64 (Fin 3) (Fin (5404319552844595 / 9007199254740992)) =
      Fin (2026619832316723 / 1125899906842624)"
    by (simp add: binary64_3_times)
  have f: "theoretical_logn binary64 (frame_of eight_table) =
     Inr [Fin (2026619832316723 / 1125899906842624)]"
    unfolding theoretical_logn_def e
    by (simp add: col_frame_of eight_table_def iloc_last_def l q m
        del: flog2.simps fdiv.simps fmul.simps)
  show ?thesis using a b c d e f by simp
qed

subsection \<open>C3: the growth-rate series\<close>

text \<open>
  C3. For a table of at least two rows and every adjacent pair of rows \<open>(i - 1, i)\<close>, the
  growth-rate series, aligned to the rows \<open>1..N-1\<close>, hold at \<open>i - 1\<close> the actual ratio
  \<open>total_time[i] / total_time[i-1]\<close> and the expected ratio
  \<open>(size[i] * log2(size[i])) / (size[i-1] * log2(size[i-1]))\<close>, as floating-point
  operations under any rounding, and as the real quotients in arithmetic without rounding
  when the divisors are not zero. On the two-row scenario table the actual ratio is within
  0.001 of 2.133 and the expected ratio within 0.001 of 2.201.
\<close>

theorem growth_rate_series:
  "(2 \<le> length t \<and> 1 \<le> i \<and> i < length t \<longrightarrow>
      (\<exists>tr. time_ratios r (frame_of t) = Inr tr \<and> length tr = length t - 1 \<and>
          tr ! (i - 1) = fdiv r (Fin (total_ms (t ! i))) (Fin (total_ms (t ! (i - 1))))) \<and>
      (\<exists>er. theoretical_ratios r (frame_of t) = Inr er \<and> length er = length t - 1 \<and>
          er ! (i - 1) =
            fdiv r (fmul r (Fin (real (size_n (t ! i)))) (flog2 r (Fin (real (size_n (t ! i))))))
                   (fmul r (Fin (real (size_n (t ! (i - 1)))))
                           (flog2 r (Fin (real (size_n (t ! (i - 1))))))))) \<and>
   (2 \<le> length t \<and> 1 \<le> i \<and> i < length t \<and> total_ms (t ! (i - 1)) \<noteq> 0 \<and>
    1 < size_n (t ! (i - 1)) \<and> 0 < size_n (t ! i) \<longrightarrow>
      (\<exists>tr. time_ratios exact (frame_of t) = Inr tr \<and>
          tr ! (i - 1) = Fin (total_ms (t ! i) / total_ms (t ! (i - 1)))) \<and>
      (\<exists>er. theoretical_ratios exact (frame_of t) = Inr er \<and>
          er ! (i - 1) =
            Fin (real (size_n (t ! i)) * log 2 (real (size_n (t ! i))) /
                 (real (size_n (t ! (i - 1))) * log 2 (real (size_n (t ! (i - 1)))))))) \<and>
   (\<exists>a e. time_ratios exact (frame_of scenario) = Inr [Fin a] \<and>
          \<bar>a - 2133 / 1000\<bar> < 1 / 1000 \<and>
          theoretical_ratios exact (frame_of scenario) = Inr [Fin e] \<and>
          \<bar>e - 2201 / 1000\<bar> < 1 / 1000)"
proof -
  have B: "(\<exists>tr. time_ratios exact (frame_of t) = Inr tr \<and>
          tr ! (i - 1) = Fin (total_ms (t ! i) / total_ms (t ! (i - 1)))) \<and>
      (\<exists>er. theoretical_ratios exact (frame_of t) = Inr er \<and>
          er ! (i - 1) =
            Fin (real (size_n (t ! i)) * log 2 (real (size_n (t ! i))) /
                 (real (size_n (t ! (i - 1))) * log 2 (real (size_n (t ! (i - 1)))))))"
    if h: "2 \<le> length t" "1 \<le> i" "i < length t" and nz: "total_ms (t ! (i - 1)) \<noteq> 0"
      and s1: "1 < size_n (t ! (i - 1))" and s2: "0 < size_n (t ! i)"
  proof -
    have "0 < log 2 (real (size_n (t ! (i - 1))))" using s1 by simp
    then have l: "log 2 (real (size_n (t ! (i - 1)))) \<noteq> 0" by linarith
    have 1: "fdiv exact (Fin (total_ms (t ! i))) (Fin (total_ms (t ! (i - 1)))) =
        Fin (total_ms (t ! i) / total_ms (t ! (i - 1)))"
      using nz by (simp add: exact_simps)
    have 2: "fdiv exact
        (fmul exact (Fin (real (size_n (t ! i)))) (flog2 exact (Fin (real (size_n (t ! i))))))
        (fmul exact (Fin (real (size_n (t ! (i - 1)))))
                    (flog2 exact (Fin (real (size_n (t ! (i - 1))))))) =
        Fin (real (size_n (t ! i)) * log 2 (real (size_n (t ! i))) /
             (real (size_n (t ! (i - 1))) * log 2 (real (size_n (t ! (i - 1))))))"
      using s1 s2 l by (simp add: exact_simps)
    show ?thesis using adjacent_ratios [OF h, of exact] unfolding 1 2 by blast
  qed
  have C: "\<exists>a e. time_ratios exact (frame_of scenario) = Inr [Fin a] \<and>
          \<bar>a - 2133 / 1000\<bar> < 1 / 1000 \<and>
          theoretical_ratios exact (frame_of scenario) = Inr [Fin e] \<and>
          \<bar>e - 2201 / 1000\<bar> < 1 / 1000"
  proof -
    have 1: "time_ratios exact (frame_of scenario) = Inr [Fin ((32 / 10) / (3 / 2))]"
      by (simp add: time_ratios_def col_frame_of scenario_def exact_simps)
    have 2: "theoretical_ratios exact (frame_of scenario) =
        Inr [Fin (2000 * log 2 2000 / (1000 * log 2 1000))]"
      by (simp add: theoretical_ratios_def len_frame_of col_frame_of scenario_def exact_simps
          Let_def log2_2000)
    have 3: "\<bar>(32 / 10) / (3 / 2) - 2133 / 1000\<bar> < (1 / 1000 :: real)" by simp
    show ?thesis using 1 2 3 scenario_expected_bounds by blast
  qed
  show ?thesis using adjacent_ratios [of t i r] B C by blast
qed

theorem growth_rate_series_witness:
  "2 \<le> length scenario \<and> (1::nat) \<le> 1 \<and> 1 < length scenario \<and>
   total_ms (scenario ! (1 - 1)) \<noteq> 0 \<and> 1 < size_n (scenario ! (1 - 1)) \<and>
   0 < size_n (scenario ! 1) \<and>
   (\<exists>tr. time_ratios binary64 (frame_of scenario) = Inr tr \<and>
        length tr = length scenario - 1 \<and>
        tr ! (1 - 1) =
          fdiv binary64 (Fin (total_ms (scenario ! 1))) (Fin (total_ms (scenario ! (1 - 1))))) \<and>
   (\<exists>tr. time_ratios exact (frame_of scenario) = Inr tr \<and>
        tr ! (1 - 1) = Fin (total_ms (scenario ! 1) / total_ms (scenario ! (1 - 1))))"
proof -
  have h: "2 \<le> length scenario" "(1::nat) \<le> 1" "1 < length scenario"
    "total_ms (scenario ! (1 - 1)) \<noteq> 0" "1 < size_n (scenario ! (1 - 1))"
    "0 < size_n (scenario ! 1)"
    by (simp_all add: scenario_def)
  show ?thesis
    using h growth_rate_series [of scenario 1 binary64] by blast
qed

subsection \<open>C4: the SA/LCP ratio and its mean\<close>

text \<open>
  C4. The ratio series is the elementwise quotient \<open>sa_time[i] / lcp_time[i]\<close>; a row with
  \<open>lcp_time = 0\<close> gives an infinity when \<open>sa_time\<close> is not zero and NaN when it is zero, kept
  in the series as it is. The reference constant is \<^verbatim>\<open>ratio.mean()\<close>, which leaves the
  NaN entries out. Under every rounding and every order of summation, it is NaN when
  every entry is NaN, and it is not finite when some entry is an infinity, as when some
  row has \<open>lcp_time = 0\<close> and \<open>sa_time\<close> not zero. In arithmetic without rounding, it is the
  arithmetic mean of the finite entries when the other entries are NaN.
\<close>

theorem sa_lcp_ratio_and_mean:
  "ratio r (frame_of t) = Inr (map (\<lambda>b. fdiv r (Fin (sa_ms b)) (Fin (lcp_ms b))) t) \<and>
   (\<forall>b\<in>set t. lcp_ms b = 0 \<longrightarrow>
      (if sa_ms b = 0 then fdiv r (Fin (sa_ms b)) (Fin (lcp_ms b)) = NaN
       else fdiv r (Fin (sa_ms b)) (Fin (lcp_ms b)) = PInf \<or>
            fdiv r (Fin (sa_ms b)) (Fin (lcp_ms b)) = NInf)) \<and>
   is_mean r s (mean r s) \<and>
   (\<forall>m. is_mean r s m \<longrightarrow>
      ((\<forall>v\<in>set s. isnan v) \<longrightarrow> m = NaN) \<and>
      ((\<exists>v\<in>set s. v = PInf \<or> v = NInf) \<longrightarrow> \<not> isfinite m)) \<and>
   (\<forall>m. is_mean exact s m \<and> (\<forall>v\<in>set s. isfinite v \<or> isnan v) \<and> (\<exists>v\<in>set s. isfinite v) \<longrightarrow>
      m = Fin (sum_list (finite_values s) / real (length (finite_values s)))) \<and>
   ((\<exists>b\<in>set t. lcp_ms b = 0 \<and> sa_ms b \<noteq> 0) \<longrightarrow>
      (\<exists>q. ratio r (frame_of t) = Inr q \<and> (\<forall>m. is_mean r q m \<longrightarrow> \<not> isfinite m)))"
proof (intro conjI allI impI)
  show 1: "ratio r (frame_of t) = Inr (map (\<lambda>b. fdiv r (Fin (sa_ms b)) (Fin (lcp_ms b))) t)"
    by (simp only: ratio_def col_frame_of ebind_simps map2_same)
  show "\<forall>b\<in>set t. lcp_ms b = 0 \<longrightarrow>
      (if sa_ms b = 0 then fdiv r (Fin (sa_ms b)) (Fin (lcp_ms b)) = NaN
       else fdiv r (Fin (sa_ms b)) (Fin (lcp_ms b)) = PInf \<or>
            fdiv r (Fin (sa_ms b)) (Fin (lcp_ms b)) = NInf)"
    by (simp add: signed_inf_def)
  show "is_mean r s (mean r s)" by (rule is_mean_mean)
  show "m = NaN" if "is_mean r s m" "\<forall>v\<in>set s. isnan v" for m
    using that by (rule is_mean_all_nan)
  show "\<not> isfinite m" if "is_mean r s m" "\<exists>v\<in>set s. v = PInf \<or> v = NInf" for m
    using that by (rule is_mean_infinite)
  show "m = Fin (sum_list (finite_values s) / real (length (finite_values s)))"
    if "is_mean exact s m \<and> (\<forall>v\<in>set s. isfinite v \<or> isnan v) \<and> (\<exists>v\<in>set s. isfinite v)" for m
    using that is_mean_exact_finite by blast
  show "\<exists>q. ratio r (frame_of t) = Inr q \<and> (\<forall>m. is_mean r q m \<longrightarrow> \<not> isfinite m)"
    if ex: "\<exists>b\<in>set t. lcp_ms b = 0 \<and> sa_ms b \<noteq> 0"
  proof -
    define q where "q = map (\<lambda>b. fdiv r (Fin (sa_ms b)) (Fin (lcp_ms b))) t"
    obtain b where b: "b \<in> set t" "lcp_ms b = 0" "sa_ms b \<noteq> 0" using ex by blast
    then have "fdiv r (Fin (sa_ms b)) (Fin (lcp_ms b)) = PInf \<or>
        fdiv r (Fin (sa_ms b)) (Fin (lcp_ms b)) = NInf"
      by (simp add: signed_inf_def)
    moreover have "fdiv r (Fin (sa_ms b)) (Fin (lcp_ms b)) \<in> set q"
      unfolding q_def set_map using b(1) by (rule imageI)
    ultimately have "\<exists>v\<in>set q. v = PInf \<or> v = NInf" by blast
    then have "\<forall>m. is_mean r q m \<longrightarrow> \<not> isfinite m" using is_mean_infinite by blast
    moreover have "ratio r (frame_of t) = Inr q" unfolding q_def by (rule 1)
    ultimately show ?thesis by blast
  qed
qed

theorem sa_lcp_ratio_and_mean_witness:
  "is_mean binary64 [NaN, PInf, Fin 1] (mean binary64 [NaN, PInf, Fin 1]) \<and>
   \<not> isfinite (mean binary64 [NaN, PInf, Fin 1]) \<and>
   mean binary64 [NaN] = NaN \<and>
   mean exact [NaN, Fin 1, Fin 3] = Fin 2 \<and>
   (\<exists>q. ratio binary64 (frame_of zero_lcp_table) = Inr q \<and> \<not> isfinite (mean binary64 q))"
proof -
  note A = sa_lcp_ratio_and_mean [of binary64 zero_lcp_table "[NaN, PInf, Fin 1]"]
  note B = sa_lcp_ratio_and_mean [of binary64 zero_lcp_table "[NaN]"]
  note C = sa_lcp_ratio_and_mean [of exact zero_lcp_table "[NaN, Fin 1, Fin 3]"]
  have h: "\<exists>v\<in>set [NaN, PInf, Fin 1]. v = PInf \<or> v = NInf"
    "\<forall>v\<in>set [NaN]. isnan v"
    "\<forall>v\<in>set [NaN, Fin 1, Fin 3]. isfinite v \<or> isnan v"
    "\<exists>v\<in>set [NaN, Fin 1, Fin 3]. isfinite v"
    "\<exists>b\<in>set zero_lcp_table. lcp_ms b = 0 \<and> sa_ms b \<noteq> 0"
    by (simp_all add: zero_lcp_table_def)
  have a: "is_mean binary64 [NaN, PInf, Fin 1] (mean binary64 [NaN, PInf, Fin 1])"
    using A by blast
  then have b: "\<not> isfinite (mean binary64 [NaN, PInf, Fin 1])" using A h(1) by blast
  have "is_mean binary64 [NaN] (mean binary64 [NaN])" using B by blast
  then have c: "mean binary64 [NaN] = NaN" using B h(2) by blast
  have v: "sum_list (finite_values [NaN, Fin 1, Fin 3]) /
          real (length (finite_values [NaN, Fin 1, Fin 3])) = 2"
    by simp
  have "is_mean exact [NaN, Fin 1, Fin 3] (mean exact [NaN, Fin 1, Fin 3])" using C by blast
  then have "mean exact [NaN, Fin 1, Fin 3] =
      Fin (sum_list (finite_values [NaN, Fin 1, Fin 3]) /
           real (length (finite_values [NaN, Fin 1, Fin 3])))"
    using C h(3,4) by blast
  then have d: "mean exact [NaN, Fin 1, Fin 3] = Fin 2" by (simp only: v)
  obtain q where q: "ratio binary64 (frame_of zero_lcp_table) = Inr q"
    "\<forall>m. is_mean binary64 q m \<longrightarrow> \<not> isfinite m"
    using A h(5) by blast
  have "is_mean binary64 q (mean binary64 q)"
    using sa_lcp_ratio_and_mean [of binary64 zero_lcp_table q] by blast
  then have e: "\<not> isfinite (mean binary64 q)" using q(2) by blast
  show ?thesis using a b c d q(1) e by blast
qed

text \<open>
  Where C4 fails as stated: a row with both times zero has the ratio NaN, and the mean of
  the series \<open>[NaN, 1]\<close> is 1, a finite number.
\<close>

theorem nan_ratio_mean_counterexample:
  "ratio binary64 (frame_of nan_ratio_table) = Inr [NaN, Fin 1] \<and>
   mean binary64 [NaN, Fin 1] = Fin 1 \<and>
   ratio exact (frame_of nan_ratio_table) = Inr [NaN, Fin 1] \<and>
   mean exact [NaN, Fin 1] = Fin 1"
proof -
  have a: "ratio r (frame_of nan_ratio_table) = Inr [fdiv r (Fin 0) (Fin 0), fdiv r (Fin 1) (Fin 1)]"
    for r
    by (simp add: ratio_def col_frame_of nan_ratio_table_def del: fdiv.simps)
  have b: "fdiv r (Fin 0) (Fin 0) = NaN" for r
    by (simp add: signed_inf_def)
  have c: "fdiv binary64 (Fin 1) (Fin 1) = Fin 1" "fdiv exact (Fin 1) (Fin 1) = Fin 1"
    "fadd binary64 (Fin 0) (Fin 1) = Fin 1" "fadd exact (Fin 0) (Fin 1) = Fin 1"
    by (simp_all add: binary64_1 exact_simps)
  have d: "mean r [NaN, Fin 1] = fdiv r (fadd r (Fin 0) (Fin 1)) (Fin 1)" for r
    by (simp add: mean_def del: fdiv.simps fadd.simps)
  show ?thesis
    by (simp only: a b c d)
qed

subsection \<open>C5: the lengths of the derived series\<close>

text \<open>
  C5. For a non-empty table of \<open>N\<close> rows that has the six columns, the total-time curve,
  the SA/LCP ratio, the two reference curves, the search times in microseconds and the
  theoretical search-time curve have length \<open>N\<close>, and the two growth-rate series have
  length \<open>N - 1\<close>. The component-breakdown subset has \<open>(N + k - 1) div k\<close> rows, where
  \<open>k = max(1, N // 10)\<close> is the step: that is \<open>N\<close> exactly when \<open>N < 20\<close>.
\<close>

theorem derived_series_lengths:
  assumes cols: "set required_columns \<subseteq> set (columns df)" and ne: "rows df \<noteq> []"
  shows "(\<exists>s. theoretical r df = Inr s \<and> length s = len df) \<and>
         (\<exists>s. ratio r df = Inr s \<and> length s = len df) \<and>
         (\<exists>s. y_n r df = Inr s \<and> length s = len df) \<and>
         (\<exists>s. y_nlogn r df = Inr s \<and> length s = len df) \<and>
         (\<exists>s. search_us r df = Inr s \<and> length s = len df) \<and>
         (\<exists>s. theoretical_logn r df = Inr s \<and> length s = len df) \<and>
         (\<exists>s. time_ratios r df = Inr s \<and> length s = len df - 1) \<and>
         (\<exists>s. theoretical_ratios r df = Inr s \<and> length s = len df - 1) \<and>
         len (df_subset df) = (len df + step df - 1) div step df \<and>
         (len (df_subset df) = len df \<longleftrightarrow> len df < 20)"
proof -
  obtain row rest where rs: "rows df = row # rest" using ne by (cases "rows df") auto
  note p = required_present [OF cols]
  have 1: "\<exists>s. theoretical r df = Inr s \<and> length s = len df"
    by (simp add: theoretical_def col_present p rs iloc0_Cons len_def)
  have 2: "\<exists>s. ratio r df = Inr s \<and> length s = len df"
    by (simp add: ratio_def col_present p len_def)
  have 3: "\<exists>s. y_n r df = Inr s \<and> length s = len df"
    by (simp add: y_n_def col_present p rs iloc0_Cons len_def)
  have 4: "\<exists>s. y_nlogn r df = Inr s \<and> length s = len df"
    by (simp add: y_nlogn_def col_present p rs iloc0_Cons len_def)
  have 5: "\<exists>s. search_us r df = Inr s \<and> length s = len df"
    by (simp add: search_us_def col_present p len_def)
  have 6: "\<exists>s. theoretical_logn r df = Inr s \<and> length s = len df"
    by (simp add: theoretical_logn_def search_us_def col_present p rs iloc_last_def len_def)
  have 7: "\<exists>s. time_ratios r df = Inr s \<and> length s = len df - 1"
    by (simp add: time_ratios_def col_present p len_def)
  have 8: "\<exists>s. theoretical_ratios r df = Inr s \<and> length s = len df - 1"
    by (simp add: theoretical_ratios_def col_present p len_def)
  have 9: "len (df_subset df) = (len df + step df - 1) div step df"
    by (simp add: len_df_subset step_def)
  show ?thesis using 1 2 3 4 5 6 7 8 9 len_df_subset_eq_iff [of df] by blast
qed

theorem derived_series_lengths_witness:
  "set required_columns \<subseteq> set (columns (frame_of scenario)) \<and> rows (frame_of scenario) \<noteq> [] \<and>
   (\<exists>s. theoretical binary64 (frame_of scenario) = Inr s \<and> length s = len (frame_of scenario)) \<and>
   (\<exists>s. time_ratios binary64 (frame_of scenario) = Inr s \<and>
        length s = len (frame_of scenario) - 1) \<and>
   len (df_subset (frame_of scenario)) = len (frame_of scenario)"
proof -
  have h: "set required_columns \<subseteq> set (columns (frame_of scenario))"
    "rows (frame_of scenario) \<noteq> []"
    by (simp_all add: scenario_def)
  have "len (frame_of scenario) < 20"
    by (simp add: len_def scenario_def)
  then show ?thesis
    using h derived_series_lengths [OF h, of binary64] by blast
qed

text \<open>A table of 20 rows has step 2 and a subset of 10 rows, not 20.\<close>

theorem subset_length_counterexample:
  "len (frame_of twenty_rows) = 20 \<and> len (df_subset (frame_of twenty_rows)) = 10"
proof -
  have n: "len (frame_of twenty_rows) = 20"
    by (simp add: len_def twenty_rows_def)
  have "(20 + max 1 (20 div 10) - 1) div max 1 (20 div 10) = (10::nat)"
    by (simp add: numeral_2_eq_2 [symmetric])
  then show ?thesis using n by (simp only: len_df_subset)
qed

subsection \<open>C6: a table of one row\<close>

text \<open>
  C6. For a table of exactly one row, the growth-rate series are empty, and the growth-rate
  chart and the component-breakdown chart are both written without an exception. The
  component-breakdown subset is not empty: the step is \<open>max(1, 1 // 10) = 1\<close>, and the
  subset is the one row of the table, drawn as one stacked bar.
\<close>

theorem single_row_series:
  assumes cols: "set required_columns \<subseteq> set (columns df)" and one: "rows df = [row]"
  shows "size_ratios r df = Inr [] \<and> time_ratios r df = Inr [] \<and>
         theoretical_ratios r df = Inr [] \<and> x_pos df = Inr [] \<and>
         rows (df_subset df) = [row] \<and>
         plot_growth_rates r df dir w =
           Inr (savefig (dir @ ''/growth_rates.png'')
                  [Curve ''Actual Growth Rate'' [] [],
                   Curve ''Expected O(n log n) Growth'' [] [], HLine (Fin 1)] w) \<and>
         plot_component_breakdown r df dir w =
           Inr (savefig (dir @ ''/component_breakdown.png'')
                  [Bars ''SA Construction'' [Fin 0] [row ''SA(ms)''] [Fin 0],
                   Bars ''LCP Construction'' [Fin 0] [row ''LCP(ms)''] [row ''SA(ms)'']] w)"
proof -
  note p = required_present [OF cols]
  have a: "size_ratios r df = Inr []" "time_ratios r df = Inr []"
    "theoretical_ratios r df = Inr []" "x_pos df = Inr []"
    by (simp_all add: size_ratios_def time_ratios_def theoretical_ratios_def x_pos_def
        col_present p one len_def)
  have b: "rows (df_subset df) = [row]"
    by (simp add: df_subset_def one)
  have c: "columns (df_subset df) = columns df"
    by (simp add: df_subset_def)
  have d: "plot_growth_rates r df dir w =
           Inr (savefig (dir @ ''/growth_rates.png'')
                  [Curve ''Actual Growth Rate'' [] [],
                   Curve ''Expected O(n log n) Growth'' [] [], HLine (Fin 1)] w)"
    by (simp add: plot_growth_rates_def a)
  have e: "plot_component_breakdown r df dir w =
           Inr (savefig (dir @ ''/component_breakdown.png'')
                  [Bars ''SA Construction'' [Fin 0] [row ''SA(ms)''] [Fin 0],
                   Bars ''LCP Construction'' [Fin 0] [row ''LCP(ms)''] [row ''SA(ms)'']] w)"
    by (simp add: plot_component_breakdown_def Let_def col_present c p b len_def)
  show ?thesis using a b d e by simp
qed

theorem single_row_series_witness:
  "set required_columns \<subseteq> set (columns (frame_of (take 1 scenario))) \<and>
   rows (frame_of (take 1 scenario)) = [cells (hd scenario)] \<and>
   time_ratios binary64 (frame_of (take 1 scenario)) = Inr [] \<and>
   theoretical_ratios binary64 (frame_of (take 1 scenario)) = Inr [] \<and>
   rows (df_subset (frame_of (take 1 scenario))) = [cells (hd scenario)]"
proof -
  have h: "set required_columns \<subseteq> set (columns (frame_of (take 1 scenario)))"
    "rows (frame_of (take 1 scenario)) = [cells (hd scenario)]"
    by (simp_all add: scenario_def)
  show ?thesis
    using h single_row_series [OF h, of binary64] by blast
qed

text \<open>The subset of a one-row table has that row; it is not empty.\<close>

theorem single_row_subset_counterexample:
  "len (frame_of (take 1 scenario)) = 1 \<and>
   rows (df_subset (frame_of (take 1 scenario))) = [cells (hd scenario)]"
  by (simp add: len_def df_subset_def step_def scenario_def)

subsection \<open>C7: the loader and a missing column\<close>

text \<open>
  C7. The loader validates nothing, neither the rows nor the presence of the columns: it
  returns the table the resource holds. A required column that is absent surfaces later:
  for a table with at least one row, the run ends with the \<open>KeyError\<close> of the first
  missing column in the order the chart builders read them; unless that column is
  \<^verbatim>\<open>Search(ns)\<close>, this happens in the first chart builder and no file is written.
\<close>

theorem loader_does_not_validate:
  "(files w p = Some (Csv df) \<longrightarrow> load_data w p = Inr df) \<and>
   (files w csv_path = Some (Csv df) \<and> rows df \<noteq> [] \<and> first_missing df = Some c \<longrightarrow>
      snd (main r w) = Some (KeyError c) \<and>
      (c \<noteq> ''Search(ns)'' \<longrightarrow> files (fst (main r w)) = files w))"
proof (intro conjI impI)
  assume "files w p = Some (Csv df)"
  then show "load_data w p = Inr df" by (rule load_data_Csv)
next
  assume h: "files w csv_path = Some (Csv df) \<and> rows df \<noteq> [] \<and> first_missing df = Some c"
  define w2 where "w2 = print_line (CHR 0x0A # ''Generating plots...'')
                (print_line ''Loading benchmark data...'' w)"
  have f2: "files w2 = files w" by (simp add: w2_def)
  have m: "snd (main r w) = snd (run_plots (plots r) df output_dir w2)"
    "files (fst (main r w)) = files (fst (run_plots (plots r) df output_dir w2))"
    using h unfolding w2_def by (simp_all add: main_loaded)
  from h first_missing_cases [of df c]
  consider (early) "find (\<lambda>c. c \<notin> set (columns df))
             [''Size'', ''Total(ms)'', ''SA(ms)'', ''LCP(ms)'', ''n*log(n)''] = Some c"
    | (late) "c = ''Search(ns)''" "''Search(ns)'' \<notin> set (columns df)"
        "''Size'' \<in> set (columns df)" "''Total(ms)'' \<in> set (columns df)"
        "''SA(ms)'' \<in> set (columns df)" "''LCP(ms)'' \<in> set (columns df)"
        "''n*log(n)'' \<in> set (columns df)"
    by blast
  then have "snd (main r w) = Some (KeyError c) \<and>
      (c \<noteq> ''Search(ns)'' \<longrightarrow> files (fst (main r w)) = files w)"
  proof cases
    case early
    have "run_plots (plots r) df output_dir w2 = (w2, Some (KeyError c))"
      by (simp add: plots_def plot_overall_complexity_missing [OF early])
    then show ?thesis by (simp add: m f2)
  next
    case late
    have ne: "rows df \<noteq> []" using h by simp
    obtain c1 where 1: "plot_overall_complexity r df output_dir w2 =
        Inr (savefig (output_dir @ ''/overall_complexity.png'') c1 w2)"
      using plot_overall_complexity_ok [OF late(3,4,5,6,7) ne] by blast
    obtain c2 where 2: "plot_sa_vs_lcp r df output_dir
          (savefig (output_dir @ ''/overall_complexity.png'') c1 w2) =
        Inr (savefig (output_dir @ ''/sa_vs_lcp.png'') c2
               (savefig (output_dir @ ''/overall_complexity.png'') c1 w2))"
      using plot_sa_vs_lcp_ok [OF late(3,5,6)] by blast
    obtain c3 where 3: "plot_logarithmic_scale r df output_dir
          (savefig (output_dir @ ''/sa_vs_lcp.png'') c2
               (savefig (output_dir @ ''/overall_complexity.png'') c1 w2)) =
        Inr (savefig (output_dir @ ''/logarithmic_complexity.png'') c3
          (savefig (output_dir @ ''/sa_vs_lcp.png'') c2
               (savefig (output_dir @ ''/overall_complexity.png'') c1 w2)))"
      using plot_logarithmic_scale_ok [OF late(3,4,5,6) ne] by blast
    have "snd (run_plots (plots r) df output_dir w2) = Some (KeyError ''Search(ns)'')"
      by (simp add: plots_def 1 2 3 plot_search_performance_missing [OF late(2)])
    then show ?thesis using late(1) by (simp add: m)
  qed
  then show "snd (main r w) = Some (KeyError c)"
    and "c \<noteq> ''Search(ns)'' \<Longrightarrow> files (fst (main r w)) = files w"
    by simp_all
qed

theorem loader_does_not_validate_witness:
  "load_data (world_of no_size_frame) csv_path = Inr no_size_frame \<and>
   snd (main binary64 (world_of no_size_frame)) = Some (KeyError ''Size'') \<and>
   files (fst (main binary64 (world_of no_size_frame))) = files (world_of no_size_frame)"
proof -
  have h: "files (world_of no_size_frame) csv_path = Some (Csv no_size_frame)"
    "rows no_size_frame \<noteq> []" "first_missing no_size_frame = Some ''Size''"
    "''Size'' \<noteq> ''Search(ns)''"
    by (simp_all add: world_of_def no_size_frame_def first_missing_def scenario_def)
  show ?thesis
    using h loader_does_not_validate
      [of "world_of no_size_frame" csv_path no_size_frame "''Size''" binary64]
    by blast
qed

text \<open>The loader returns a table without a \<^verbatim>\<open>Size\<close> column; it does not fail.\<close>

theorem loader_accepts_missing_column_counterexample:
  "''Size'' \<notin> set (columns no_size_frame) \<and>
   load_data (world_of no_size_frame) csv_path = Inr no_size_frame"
  by (simp add: world_of_def load_data_def) (simp add: no_size_frame_def)

subsection \<open>C8: the input table is absent\<close>

text \<open>
  C8. When the input table is absent, the driver prints two lines, the first naming the
  expected location and the second the tool that produces the table
  (\<^verbatim>\<open>PerformanceBenchmark.java\<close>), and returns: no chart builder runs (no
  \<^verbatim>\<open>Saved:\<close> line is printed) and no file is written.
\<close>

theorem missing_input_reported:
  assumes "files w csv_path = None"
  shows "snd (main r w) = None \<and> files (fst (main r w)) = files w \<and>
         stdout (fst (main r w)) = stdout w @
           [''Error: Benchmark data not found at /home/claude/suffix-array-project/docs/benchmark_results.csv'',
            ''Please run PerformanceBenchmark.java first to generate data.'']"
  using assms by (simp add: main_def path_exists_def missing_message_def csv_path_def)

theorem missing_input_reported_witness:
  "files \<lparr>files = Map.empty, stdout = []\<rparr> csv_path = None \<and>
   snd (main binary64 \<lparr>files = Map.empty, stdout = []\<rparr>) = None \<and>
   files (fst (main binary64 \<lparr>files = Map.empty, stdout = []\<rparr>)) = Map.empty \<and>
   stdout (fst (main binary64 \<lparr>files = Map.empty, stdout = []\<rparr>)) =
     [''Error: Benchmark data not found at /home/claude/suffix-array-project/docs/benchmark_results.csv'',
      ''Please run PerformanceBenchmark.java first to generate data.'']"
proof -
  have h: "files \<lparr>files = Map.empty, stdout = []\<rparr> csv_path = None" by simp
  show ?thesis
    using h missing_input_reported [OF h, of binary64] by simp
qed

subsection \<open>C9: the expected growth rate is at least one\<close>

text \<open>
  C9. For a table of more than one row whose sizes are positive and strictly increasing,
  every element of the expected growth-rate series is at least 1: in arithmetic without
  rounding, and under every rounding that keeps the order (binary64 is one) when the sizes
  are below \<open>2 ^ 64\<close>. (When the first size is 1 the first element is \<open>+inf\<close>.)
\<close>

theorem expected_growth_at_least_one:
  assumes len: "1 < length t" and inc: "sorted_wrt (<) (map size_n t)"
    and pos: "0 < size_n (hd t)"
  shows "(\<exists>s. theoretical_ratios exact (frame_of t) = Inr s \<and> length s = length t - 1 \<and>
              (\<forall>x\<in>set s. fle (Fin 1) x)) \<and>
         (monotone_rounding r \<and> (\<forall>b\<in>set t. size_n b < 2 ^ 64) \<longrightarrow>
            (\<exists>s. theoretical_ratios r (frame_of t) = Inr s \<and> length s = length t - 1 \<and>
                 (\<forall>x\<in>set s. fle (Fin 1) x)))"
proof -
  define s where "s r = map (\<lambda>i. fdiv r
         (fmul r (Fin (real (size_n (t ! i)))) (flog2 r (Fin (real (size_n (t ! i))))))
         (fmul r (Fin (real (size_n (t ! (i - 1)))))
                 (flog2 r (Fin (real (size_n (t ! (i - 1))))))))
       [1..<length t]" for r :: rounding
  have eq: "theoretical_ratios r (frame_of t) = Inr (s r)" for r
    using len
    by (simp add: theoretical_ratios_def len_frame_of col_frame_of Let_def less_imp_diff_less
        s_def del: fdiv.simps fmul.simps flog2.simps)
  have lt: "size_n (t ! i) < size_n (t ! j)" if "i < j" "j < length t" for i j
    using sorted_wrt_nth_less [OF inc, of i j] that by simp
  have ge: "1 \<le> size_n (t ! i)" if "i < length t" for i
  proof (cases i)
    case 0
    then show ?thesis using pos len by (cases t) simp_all
  next
    case (Suc k)
    then show ?thesis using lt [of 0 i] that by simp
  qed
  have pair: "\<exists>i. 1 \<le> i \<and> i < length t \<and> x = fdiv r
         (fmul r (Fin (real (size_n (t ! i)))) (flog2 r (Fin (real (size_n (t ! i))))))
         (fmul r (Fin (real (size_n (t ! (i - 1)))))
                 (flog2 r (Fin (real (size_n (t ! (i - 1)))))))"
    if "x \<in> set (s r)" for x r
    using that unfolding s_def by auto
  have len_s: "length (s r) = length t - 1" for r by (simp add: s_def)
  have A: "\<forall>x\<in>set (s exact). fle (Fin 1) x"
  proof
    fix x assume "x \<in> set (s exact)"
    then obtain i where i: "1 \<le> i" "i < length t" and x: "x = fdiv exact
         (fmul exact (Fin (real (size_n (t ! i)))) (flog2 exact (Fin (real (size_n (t ! i))))))
         (fmul exact (Fin (real (size_n (t ! (i - 1)))))
                     (flog2 exact (Fin (real (size_n (t ! (i - 1)))))))"
      using pair by blast
    have "size_n (t ! (i - 1)) < size_n (t ! i)" using i by (intro lt) simp_all
    moreover have "1 \<le> size_n (t ! (i - 1))" using i by (intro ge) simp
    ultimately show "fle (Fin 1) x" unfolding x by (intro expected_ratio_ge_1)
  qed
  have B: "\<forall>x\<in>set (s r). fle (Fin 1) x"
    if r: "monotone_rounding r" and bound: "\<forall>b\<in>set t. size_n b < 2 ^ 64"
  proof
    fix x assume "x \<in> set (s r)"
    then obtain i where i: "1 \<le> i" "i < length t" and x: "x = fdiv r
         (fmul r (Fin (real (size_n (t ! i)))) (flog2 r (Fin (real (size_n (t ! i))))))
         (fmul r (Fin (real (size_n (t ! (i - 1)))))
                 (flog2 r (Fin (real (size_n (t ! (i - 1)))))))"
      using pair by blast
    have "size_n (t ! (i - 1)) < size_n (t ! i)" using i by (intro lt) simp_all
    moreover have "1 \<le> size_n (t ! (i - 1))" using i by (intro ge) simp
    moreover have "size_n (t ! i) < 2 ^ 64" using bound i by simp
    ultimately show "fle (Fin 1) x" unfolding x by (intro expected_ratio_ge_1_rounded [OF r])
  qed
  show ?thesis using eq len_s A B by blast
qed

theorem expected_growth_at_least_one_witness:
  "1 < length scenario \<and> sorted_wrt (<) (map size_n scenario) \<and> 0 < size_n (hd scenario) \<and>
   monotone_rounding binary64 \<and>
   (\<exists>s. theoretical_ratios exact (frame_of scenario) = Inr s \<and>
        length s = length scenario - 1 \<and> fle (Fin 1) (s ! 0)) \<and>
   (\<exists>s. theoretical_ratios binary64 (frame_of scenario) = Inr s \<and>
        length s = length scenario - 1 \<and> fle (Fin 1) (s ! 0))"
proof -
  have h: "1 < length scenario" "sorted_wrt (<) (map size_n scenario)"
    "0 < size_n (hd scenario)"
    by (simp_all add: scenario_def)
  have b: "\<forall>b\<in>set scenario. size_n b < 2 ^ 64"
    by (simp add: scenario_def)
  note m = monotone_rounding_binary64
  obtain s where s: "theoretical_ratios exact (frame_of scenario) = Inr s"
    "length s = length scenario - 1" "\<forall>x\<in>set s. fle (Fin 1) x"
    using expected_growth_at_least_one [OF h, of binary64] by blast
  obtain s' where s': "theoretical_ratios binary64 (frame_of scenario) = Inr s'"
    "length s' = length scenario - 1" "\<forall>x\<in>set s'. fle (Fin 1) x"
    using expected_growth_at_least_one [OF h, of binary64] m b by blast
  have "0 < length s" "0 < length s'" using s(2) s'(2) h(1) by simp_all
  then have "s ! 0 \<in> set s" "s' ! 0 \<in> set s'" by (simp_all only: nth_mem)
  then have "fle (Fin 1) (s ! 0)" "fle (Fin 1) (s' ! 0)" using s(3) s'(3) by blast+
  then show ?thesis using h m s s' by blast
qed

subsection \<open>C10: the component-breakdown subset\<close>

text \<open>
  C10. For a non-empty table of \<open>N\<close> rows, the subset taken with the step
  \<open>k = max(1, N // 10)\<close> starts with the first row of the table, and it has
  \<open>\<lceil>N / k\<rceil>\<close> rows: \<open>N\<close> rows when \<open>N < 10\<close>, and between 10 and 19 rows when
  \<open>N \<ge> 10\<close>.
\<close>

theorem component_subset_keeps_first_row:
  "rows df \<noteq> [] \<Longrightarrow>
     (let N = len df; k = step df; sub = rows (df_subset df) in
        k = max 1 (N div 10) \<and> sub \<noteq> [] \<and> hd sub = hd (rows df) \<and>
        int (length sub) = \<lceil>real N / real k\<rceil> \<and>
        (N < 10 \<longrightarrow> length sub = N) \<and>
        (10 \<le> N \<longrightarrow> 10 \<le> length sub \<and> length sub \<le> 19))"
proof -
  assume ne: "rows df \<noteq> []"
  define N where "N = len df"
  define k where "k = step df"
  define sub where "sub = rows (df_subset df)"
  have k: "k = max 1 (N div 10)" by (simp add: k_def N_def step_def)
  then have kpos: "0 < k" by simp
  have sub: "sub = slice_step k (rows df)" by (simp add: sub_def df_subset_def k_def)
  have len: "length sub = (N + k - 1) div k"
    using kpos by (simp add: sub length_slice_step N_def len_def)
  have first: "sub \<noteq> [] \<and> hd sub = hd (rows df)"
    using ne by (simp add: sub hd_slice_step)
  have ceil: "int (length sub) = \<lceil>real N / real k\<rceil>"
    using kpos by (simp add: len ceiling_div_nat)
  have small: "N < 10 \<Longrightarrow> length sub = N"
    by (simp add: len k)
  have large: "10 \<le> N \<Longrightarrow> 10 \<le> length sub \<and> length sub \<le> 19"
  proof -
    assume h: "10 \<le> N"
    then have "1 \<le> N div 10" by simp
    then have "k = N div 10" using k by simp
    with h show ?thesis using subset_bounds [of N k] by (simp add: len)
  qed
  show ?thesis
    using k first ceil small large
    by (simp add: Let_def N_def [symmetric] k_def [symmetric] sub_def [symmetric])
qed

theorem component_subset_keeps_first_row_witness:
  "rows (frame_of twenty_rows) \<noteq> [] \<and>
   (let N = len (frame_of twenty_rows); k = step (frame_of twenty_rows);
        sub = rows (df_subset (frame_of twenty_rows)) in
      k = max 1 (N div 10) \<and> sub \<noteq> [] \<and> hd sub = hd (rows (frame_of twenty_rows)) \<and>
      int (length sub) = \<lceil>real N / real k\<rceil> \<and>
      (N < 10 \<longrightarrow> length sub = N) \<and>
      (10 \<le> N \<longrightarrow> 10 \<le> length sub \<and> length sub \<le> 19))"
proof -
  have h: "rows (frame_of twenty_rows) \<noteq> []"
    by (simp add: twenty_rows_def)
  show ?thesis
    using h component_subset_keeps_first_row [OF h] by blast
qed

end
